theory Spec2Isabelle
  imports Complex_Main "HOL-Library.AList" "HOL-Library.Sublist"
    "HOL-Library.Char_ord" "HOL-Library.List_Lexorder"
begin

section \<open>Values and Python operations on them\<close>

text \<open>
  Both converters work on the objects that \<^verbatim>\<open>json.loads\<close> returns: \<^verbatim>\<open>None\<close>, booleans,
  numbers, strings, lists and dictionaries. A dictionary is the list of its items in
  insertion order, with distinct keys, read with \<^const>\<open>map_of\<close>. Python floats are
  modelled as real numbers: rounding, infinities and NaN are outside this model. A string
  is a list of characters with code points below 256.
\<close>

datatype json =
    JNull
  | JBool bool
  | JNum real
  | JStr string
  | JArr "json list"
  | JObj "(string \<times> json) list"

text \<open>The exceptions the modelled code can raise, and \<^verbatim>\<open>sys.exit(n)\<close>.\<close>

datatype py_error =
    AttributeError
  | TypeError
  | ValueError
  | IndexError
  | RecursionError
  | SystemExit nat

definition ebind :: "py_error + 'a \<Rightarrow> ('a \<Rightarrow> py_error + 'b) \<Rightarrow> py_error + 'b" where
  "ebind m f = (case m of Inl e \<Rightarrow> Inl e | Inr x \<Rightarrow> f x)"

text \<open>Truth value of an object, as \<^verbatim>\<open>if x\<close>, \<^verbatim>\<open>x or y\<close> and \<^verbatim>\<open>not x\<close> take it.\<close>

fun truthy :: "json \<Rightarrow> bool" where
  "truthy JNull = False"
| "truthy (JBool b) = b"
| "truthy (JNum r) = (r \<noteq> 0)"
| "truthy (JStr s) = (s \<noteq> [])"
| "truthy (JArr xs) = (xs \<noteq> [])"
| "truthy (JObj kv) = (kv \<noteq> [])"

text \<open>\<^verbatim>\<open>x or y\<close>\<close>

definition py_or :: "json \<Rightarrow> json \<Rightarrow> json" where
  "py_or x y = (if truthy x then x else y)"

text \<open>\<^verbatim>\<open>x.get(k, dflt)\<close>: only a dictionary has the method.\<close>

fun py_get :: "json \<Rightarrow> string \<Rightarrow> json \<Rightarrow> py_error + json" where
  "py_get (JObj kv) k dflt = Inr (case map_of kv k of Some v \<Rightarrow> v | None \<Rightarrow> dflt)"
| "py_get _ k dflt = Inl AttributeError"

text \<open>
  \<^verbatim>\<open>float(v)\<close>. The conversion of a string is Python's own parser, which is not part of
  the repository: it is the parameter \<open>pf\<close>, \<open>None\<close> where Python raises ValueError.
\<close>

fun py_float :: "(string \<Rightarrow> real option) \<Rightarrow> json \<Rightarrow> py_error + real" where
  "py_float pf (JNum r) = Inr r"
| "py_float pf (JBool b) = Inr (if b then 1 else 0)"
| "py_float pf (JStr s) = (case pf s of Some r \<Rightarrow> Inr r | None \<Rightarrow> Inl ValueError)"
| "py_float pf JNull = Inl TypeError"
| "py_float pf (JArr xs) = Inl TypeError"
| "py_float pf (JObj kv) = Inl TypeError"

text \<open>
  \<^verbatim>\<open>for x in v\<close>: a list gives its elements, a dictionary its keys, a string its
  characters; nothing else is iterable.
\<close>

fun py_iter :: "json \<Rightarrow> py_error + json list" where
  "py_iter (JArr xs) = Inr xs"
| "py_iter (JObj kv) = Inr (map (\<lambda>p. JStr (fst p)) kv)"
| "py_iter (JStr s) = Inr (map (\<lambda>c. JStr [c]) s)"
| "py_iter _ = Inl TypeError"

section \<open>Math and utilities of bbone_to_xfl_symbols.py\<close>

type_synonym mat = "real \<times> real \<times> real \<times> real \<times> real \<times> real"

text \<open>\<^verbatim>\<open>def sanitize(s): return s.replace(".", "_")\<close>\<close>

definition sanitize :: "string \<Rightarrow> string" where
  "sanitize s = map (\<lambda>c. if c = CHR ''.'' then CHR ''_'' else c) s"

text \<open>\<^verbatim>\<open>sanitize\<close> on an arbitrary object: only a string has \<^verbatim>\<open>replace\<close>.\<close>

fun sanitize_obj :: "json \<Rightarrow> py_error + string" where
  "sanitize_obj (JStr s) = Inr (sanitize s)"
| "sanitize_obj _ = Inl AttributeError"

text \<open>
  \<^verbatim>\<open>def mul(a, b): return (a[0]*b[0]+a[2]*b[1], a[1]*b[0]+a[3]*b[1], a[0]*b[2]+a[2]*b[3],
  a[1]*b[2]+a[3]*b[3], a[0]*b[4]+a[2]*b[5]+a[4], a[1]*b[4]+a[3]*b[5]+a[5])\<close>
\<close>

fun mul :: "mat \<Rightarrow> mat \<Rightarrow> mat" where
  "mul (a0, a1, a2, a3, a4, a5) (b0, b1, b2, b3, b4, b5) =
     (a0 * b0 + a2 * b1, a1 * b0 + a3 * b1,
      a0 * b2 + a2 * b3, a1 * b2 + a3 * b3,
      a0 * b4 + a2 * b5 + a4, a1 * b4 + a3 * b5 + a5)"

text \<open>\<^verbatim>\<open>mat()\<close> with its default arguments.\<close>

definition mat_identity :: mat where
  "mat_identity = (1, 0, 0, 1, 0, 0)"

section \<open>Flattening: compose_list\<close>

text \<open>
  Lines 418 to 421 of \<^verbatim>\<open>compose_list\<close>: \<^verbatim>\<open>M = bone.get("matrix", {}) or {}\<close>, then
  \<^verbatim>\<open>float(M.get(k, default))\<close> for a, b, c, d, tx, ty in this order.
\<close>

definition local_matrix :: "(string \<Rightarrow> real option) \<Rightarrow> json \<Rightarrow> py_error + mat" where
  "local_matrix pf bone =
     ebind (py_get bone ''matrix'' (JObj [])) (\<lambda>M0.
       let M = py_or M0 (JObj []) in
       ebind (ebind (py_get M ''a'' (JNum 1)) (py_float pf)) (\<lambda>a.
       ebind (ebind (py_get M ''b'' (JNum 0)) (py_float pf)) (\<lambda>b.
       ebind (ebind (py_get M ''c'' (JNum 0)) (py_float pf)) (\<lambda>c.
       ebind (ebind (py_get M ''d'' (JNum 1)) (py_float pf)) (\<lambda>d.
       ebind (ebind (py_get M ''tx'' (JNum 0)) (py_float pf)) (\<lambda>tx.
       ebind (ebind (py_get M ''ty'' (JNum 0)) (py_float pf)) (\<lambda>ty.
       Inr (a, b, c, d, tx, ty))))))))"

text \<open>Line 423: \<^verbatim>\<open>float((bone.get("color") or {}).get("alphaMultiplier", 1.0))\<close>.\<close>

definition local_alpha :: "(string \<Rightarrow> real option) \<Rightarrow> json \<Rightarrow> py_error + real" where
  "local_alpha pf bone =
     ebind (py_get bone ''color'' JNull) (\<lambda>c0.
       ebind (py_get (py_or c0 (JObj [])) ''alphaMultiplier'' (JNum 1)) (py_float pf))"

text \<open>
  \<^verbatim>\<open>shared.get(key)\<close> on the table of shared animations, whose keys are strings: a list
  or a dictionary as key is unhashable, any other object is simply not a key.
\<close>

fun shared_get :: "(string \<times> json) list \<Rightarrow> json \<Rightarrow> py_error + json" where
  "shared_get shared (JStr r) = Inr (case map_of shared r of Some v \<Rightarrow> v | None \<Rightarrow> JNull)"
| "shared_get shared (JArr xs) = Inl TypeError"
| "shared_get shared (JObj kv) = Inl TypeError"
| "shared_get shared _ = Inr JNull"

text \<open>
  Lines 426 to 430 of \<^verbatim>\<open>compose_list\<close>, and the same statements at lines 147 to 151 of
  \<^verbatim>\<open>dfs_draw_order\<close>: the children the traversal descends into at outer frame \<open>fi\<close>,
  given the node's own \<^verbatim>\<open>kids = bone.get("children")\<close>.
\<close>

definition effective_children ::
  "(string \<times> json) list \<Rightarrow> json \<Rightarrow> json \<Rightarrow> nat \<Rightarrow> py_error + json" where
  "effective_children shared bone kids fi =
     ebind (py_get bone ''references_shared_animation'' JNull) (\<lambda>r.
       if \<not> truthy r then Inr kids
       else ebind (shared_get shared r) (\<lambda>sa.
         case sa of
           JArr (x # xs) \<Rightarrow>
             py_get (py_or ((x # xs) ! (fi mod length (x # xs))) (JObj [])) ''children'' kids
         | _ \<Rightarrow> Inr kids))"

text \<open>
  \<^verbatim>\<open>compose_list(bone, pw, pa, fi)\<close>. The children of a shared animation are not part of
  the node, and an entry of the table may refer to itself, so the recursion is bounded by
  the depth the interpreter still allows: at depth 0 the call raises RecursionError.
  \<open>compose_children\<close> is the loop \<^verbatim>\<open>for ch in kids: out += compose_list(ch, world, alpha, fi)\<close>.
\<close>

type_synonym flat = "json \<times> mat \<times> real"

fun compose_list ::
  "(string \<Rightarrow> real option) \<Rightarrow> (string \<times> json) list \<Rightarrow> nat \<Rightarrow> json \<Rightarrow> mat \<Rightarrow> real \<Rightarrow> nat
     \<Rightarrow> py_error + flat list"
and compose_children ::
  "(string \<Rightarrow> real option) \<Rightarrow> (string \<times> json) list \<Rightarrow> nat \<Rightarrow> json list \<Rightarrow> mat \<Rightarrow> real \<Rightarrow> nat
     \<Rightarrow> py_error + flat list"
where
  "compose_list pf shared 0 bone pw pa fi = Inl RecursionError"
| "compose_list pf shared (Suc depth) bone pw pa fi =
     ebind (py_get bone ''name'' (JStr [])) (\<lambda>name.
     ebind (local_matrix pf bone) (\<lambda>local.
     ebind (local_alpha pf bone) (\<lambda>am.
     ebind (py_get bone ''children'' JNull) (\<lambda>kids0.
     ebind (effective_children shared bone kids0 fi) (\<lambda>kids.
       case kids of
         JArr chs \<Rightarrow>
           ebind (compose_children pf shared depth chs (mul pw local) (am * pa) fi) (\<lambda>rest.
             Inr ((name, mul pw local, am * pa) # rest))
       | _ \<Rightarrow> Inr [(name, mul pw local, am * pa)])))))"
| "compose_children pf shared depth [] pw pa fi = Inr []"
| "compose_children pf shared depth (ch # chs) pw pa fi =
     ebind (compose_list pf shared depth ch pw pa fi) (\<lambda>o1.
     ebind (compose_children pf shared depth chs pw pa fi) (\<lambda>o2.
       Inr (o1 @ o2)))"


section \<open>Generic loop with early exit\<close>

text \<open>A \<^verbatim>\<open>for\<close> loop over a list that updates a state and stops at the first exception.\<close>

primrec efold :: "('a \<Rightarrow> 's \<Rightarrow> py_error + 's) \<Rightarrow> 'a list \<Rightarrow> 's \<Rightarrow> py_error + 's" where
  "efold f [] s = Inr s"
| "efold f (x # xs) s = ebind (f x s) (efold f xs)"

section \<open>Draw order: dfs_draw_order\<close>

text \<open>
  The nested \<^verbatim>\<open>walk(node, fi)\<close> returns here the names it appends to \<^verbatim>\<open>order\<close>;
  \<open>walk_children\<close> is its loop \<^verbatim>\<open>for ch in kids: walk(ch, fi)\<close>. The depth bounds the
  recursion as in \<^const>\<open>compose_list\<close>.
\<close>

fun walk :: "(string \<times> json) list \<Rightarrow> nat \<Rightarrow> json \<Rightarrow> nat \<Rightarrow> py_error + string list"
and walk_children :: "(string \<times> json) list \<Rightarrow> nat \<Rightarrow> json list \<Rightarrow> nat \<Rightarrow> py_error + string list"
where
  "walk shared 0 node fi = Inl RecursionError"
| "walk shared (Suc depth) node fi =
     ebind (py_get node ''name'' (JStr [])) (\<lambda>nm.
     ebind (sanitize_obj nm) (\<lambda>n.
     ebind (py_get node ''children'' JNull) (\<lambda>kids0.
     ebind (effective_children shared node kids0 fi) (\<lambda>kids.
       case kids of
         JArr chs \<Rightarrow>
           ebind (walk_children shared depth chs fi) (\<lambda>rest.
             Inr ((if n \<noteq> [] then [n] else []) @ rest))
       | _ \<Rightarrow> Inr (if n \<noteq> [] then [n] else [])))))"
| "walk_children shared depth [] fi = Inr []"
| "walk_children shared depth (ch # chs) fi =
     ebind (walk shared depth ch fi) (\<lambda>o1.
     ebind (walk_children shared depth chs fi) (\<lambda>o2.
       Inr (o1 @ o2)))"

definition dfs_draw_order ::
  "(string \<times> json) list \<Rightarrow> nat \<Rightarrow> json list \<Rightarrow> py_error + string list" where
  "dfs_draw_order shared depth frames =
     (case frames of
        [] \<Rightarrow> Inr []
      | f0 # _ \<Rightarrow>
          ebind (py_get f0 ''children'' (JArr [])) (\<lambda>cs.
          ebind (py_iter cs) (\<lambda>bs. walk_children shared depth bs 0)))"

section \<open>Bitmap lookup: build_png_index and find_png_for_name\<close>

text \<open>\<^verbatim>\<open>str.lower()\<close> on code points below 256.\<close>

definition lower_char :: "char \<Rightarrow> char" where
  "lower_char c =
     (let n = (of_char c :: nat)
      in if (65 \<le> n \<and> n \<le> 90) \<or> (192 \<le> n \<and> n \<le> 222 \<and> n \<noteq> 215)
         then char_of (n + 32) else c)"

definition py_lower :: "string \<Rightarrow> string" where
  "py_lower s = map lower_char s"

text \<open>\<^verbatim>\<open>s.replace("_", ".")\<close>\<close>

definition underscore_to_dot :: "string \<Rightarrow> string" where
  "underscore_to_dot s = map (\<lambda>c. if c = CHR ''_'' then CHR ''.'' else c) s"

text \<open>\<^verbatim>\<open>idx.setdefault(k, p)\<close> on a dictionary kept as the list of its items.\<close>

definition setdefault :: "'k \<Rightarrow> 'v \<Rightarrow> ('k \<times> 'v) list \<Rightarrow> ('k \<times> 'v) list" where
  "setdefault k v al = (if k \<in> fst ` set al then al else al @ [(k, v)])"

text \<open>
  \<^verbatim>\<open>build_png_index\<close>: a PNG file is represented by its stem, \<open>files\<close> is the listing of
  the media folder in the order \<^verbatim>\<open>glob\<close> gives it. The five keys of one file form a
  Python set, whose iteration order is not fixed by the language; they are taken here in
  the order they are written. All keys one file adds are adjacent and map to that file.
\<close>

definition png_keys :: "string \<Rightarrow> string list" where
  "png_keys s =
     remdups [s, py_lower s, sanitize s, underscore_to_dot s, sanitize (py_lower s)]"

definition build_png_index :: "string list \<Rightarrow> (string \<times> string) list" where
  "build_png_index files = fold (\<lambda>p idx. fold (\<lambda>k. setdefault k p) (png_keys p) idx) files []"

text \<open>\<^verbatim>\<open>find_png_for_name(name, idx)\<close>; \<^verbatim>\<open>x in y\<close> on strings is \<^const>\<open>sublist\<close>.\<close>

definition find_png_for_name :: "string \<Rightarrow> (string \<times> string) list \<Rightarrow> string option" where
  "find_png_for_name name idx =
     (case map_of idx name of Some p \<Rightarrow> Some p
      | None \<Rightarrow>
     (case map_of idx (sanitize name) of Some p \<Rightarrow> Some p
      | None \<Rightarrow>
     (case map_of idx (py_lower name) of Some p \<Rightarrow> Some p
      | None \<Rightarrow>
          map_option snd
            (find (\<lambda>kp. sublist (py_lower name) (py_lower (fst kp))
                       \<or> sublist (py_lower (fst kp)) (py_lower name)) idx))))"

section \<open>The timeline of bbone_to_xfl_symbols.py\<close>

text \<open>
  \<^verbatim>\<open>collect(children)\<close> of \<^verbatim>\<open>main\<close>, returning the names it adds to the set \<^verbatim>\<open>names\<close>:
  a list or dictionary cannot be added to a set.
\<close>

fun add_name :: "json \<Rightarrow> json list \<Rightarrow> py_error + json list" where
  "add_name (JArr xs) names = (if xs = [] then Inr names else Inl TypeError)"
| "add_name (JObj kv) names = (if kv = [] then Inr names else Inl TypeError)"
| "add_name n names = Inr (if truthy n then names @ [n] else names)"

fun collect :: "nat \<Rightarrow> json \<Rightarrow> json list \<Rightarrow> py_error + json list"
and collect_each :: "nat \<Rightarrow> json list \<Rightarrow> json list \<Rightarrow> py_error + json list"
where
  "collect 0 children names = Inl RecursionError"
| "collect (Suc depth) children names =
     (case children of JArr bs \<Rightarrow> collect_each depth bs names | _ \<Rightarrow> Inr names)"
| "collect_each depth [] names = Inr names"
| "collect_each depth (b # bs) names =
     ebind (py_get b ''name'' JNull) (\<lambda>n.
     ebind (add_name n names) (\<lambda>names1.
     ebind (py_get b ''children'' JNull) (\<lambda>kids.
     ebind (case kids of JArr ks \<Rightarrow> collect depth kids names1 | _ \<Rightarrow> Inr names1) (\<lambda>names2.
       collect_each depth bs names2))))"

text \<open>
  \<^verbatim>\<open>sorted(names)\<close> followed by the first use of a name in \<^verbatim>\<open>find_png_for_name\<close>:
  strings sort by code point; strings mixed with numbers or booleans cannot be compared;
  numbers alone sort, and the first of them has no \<^verbatim>\<open>replace\<close>.
\<close>

fun the_str :: "json \<Rightarrow> string option" where
  "the_str (JStr s) = Some s"
| "the_str _ = None"

definition sorted_names :: "json list \<Rightarrow> py_error + string list" where
  "sorted_names names =
     (if list_all (\<lambda>n. the_str n \<noteq> None) names
      then Inr (sort (remdups (List.map_filter the_str names)))
      else if list_ex (\<lambda>n. the_str n \<noteq> None) names then Inl TypeError
      else Inl AttributeError)"

text \<open>\<^verbatim>\<open>float(st.get(k, dflt) or dflt)\<close> on a catalogue entry (lines 406 and 407).\<close>

definition plist_float ::
  "(string \<Rightarrow> real option) \<Rightarrow> (string \<times> json) list \<Rightarrow> string \<Rightarrow> real \<Rightarrow> py_error + real" where
  "plist_float pf st k dflt =
     py_float pf (py_or (case map_of st k of Some v \<Rightarrow> v | None \<Rightarrow> JNum dflt) (JNum dflt))"

text \<open>
  Lines 401 to 409: for every name in sorted order that has a PNG, the image symbol
  (stem, origin and scale) and the entry of \<^verbatim>\<open>name_to_image\<close>.
\<close>

record image_symbol =
  img_stem :: string
  img_ox :: real
  img_oy :: real
  img_sx :: real
  img_sy :: real

definition image_for ::
  "(string \<Rightarrow> real option) \<Rightarrow> (string \<times> (string \<times> json) list) list \<Rightarrow> (string \<times> string) list
     \<Rightarrow> string \<Rightarrow> image_symbol list \<times> (string \<times> string) list
     \<Rightarrow> py_error + image_symbol list \<times> (string \<times> string) list" where
  "image_for pf plist idx n acc =
     (case find_png_for_name n idx of
        None \<Rightarrow> Inr acc
      | Some stem \<Rightarrow>
          (let st = (case map_of plist n of Some e \<Rightarrow> e | None \<Rightarrow> []) in
           ebind (plist_float pf st ''origin_x'' 0) (\<lambda>ox.
           ebind (plist_float pf st ''origin_y'' 0) (\<lambda>oy.
           ebind (plist_float pf st ''scale_x'' 1) (\<lambda>sx.
           ebind (plist_float pf st ''scale_y'' 1) (\<lambda>sy.
             Inr (fst acc @ [\<lparr>img_stem = stem, img_ox = ox, img_oy = oy, img_sx = sx, img_sy = sy\<rparr>],
                  AList.update n (''image/'' @ stem) (snd acc))))))))"

text \<open>
  One slot of a track, the dictionary \<^verbatim>\<open>{"name": ..., "m": ..., "alpha": ...}\<close>, and
  \<^verbatim>\<open>layer_frames\<close>: for every layer name the dictionary from frame index to slot.
\<close>

record slot =
  slot_name :: string
  slot_m :: mat
  slot_alpha :: real

type_synonym tracks = "(string \<times> (nat \<times> slot) list) list"

text \<open>Lines 439 to 441, for one tuple of \<^verbatim>\<open>compose_list\<close>.\<close>

definition record_instance :: "nat \<Rightarrow> flat \<Rightarrow> tracks \<Rightarrow> py_error + tracks" where
  "record_instance fi inst layer_frames =
     ebind (sanitize_obj (fst inst)) (\<lambda>key.
       if key \<notin> fst ` set layer_frames then Inr layer_frames
       else Inr (AList.map_entry key
                   (AList.update fi
                      \<lparr>slot_name = ''sprite/'' @ key, slot_m = fst (snd inst),
                       slot_alpha = snd (snd inst)\<rparr>)
                   layer_frames))"

text \<open>Line 438 for one root bone, line 437 for one frame, line 436 for the timeline.\<close>

definition record_bone ::
  "(string \<Rightarrow> real option) \<Rightarrow> (string \<times> json) list \<Rightarrow> nat \<Rightarrow> nat \<Rightarrow> json \<Rightarrow> tracks
     \<Rightarrow> py_error + tracks" where
  "record_bone pf shared depth fi bone layer_frames =
     ebind (compose_list pf shared depth bone mat_identity 1 fi) (\<lambda>out.
       efold (record_instance fi) out layer_frames)"

definition record_frame ::
  "(string \<Rightarrow> real option) \<Rightarrow> (string \<times> json) list \<Rightarrow> nat \<Rightarrow> nat \<times> json \<Rightarrow> tracks
     \<Rightarrow> py_error + tracks" where
  "record_frame pf shared depth ifr layer_frames =
     ebind (py_get (snd ifr) ''children'' (JArr [])) (\<lambda>cs.
     ebind (py_iter cs) (\<lambda>bones.
       efold (record_bone pf shared depth (fst ifr)) bones layer_frames))"

definition build_tracks ::
  "(string \<Rightarrow> real option) \<Rightarrow> (string \<times> json) list \<Rightarrow> nat \<Rightarrow> json list \<Rightarrow> tracks
     \<Rightarrow> py_error + tracks" where
  "build_tracks pf shared depth frames layer_frames =
     efold (record_frame pf shared depth) (List.enumerate 0 frames) layer_frames"

text \<open>Lines 445 and 446: the order of the layers, bottom first.\<close>

definition bottom_to_top :: "string list \<Rightarrow> string list \<Rightarrow> string list" where
  "bottom_to_top order keys =
     [sanitize n. n \<leftarrow> order, sanitize n \<in> set keys]
     @ [n. n \<leftarrow> keys, n \<notin> set (map sanitize order)]"

text \<open>
  The document: layers, frames and instances as data. Attributes with a constant value
  are left out.
\<close>

record dom_instance =
  libraryItemName :: string
  inst_matrix :: "mat option"
  inst_color :: "(json \<times> json \<times> json \<times> json) option"

record dom_frame =
  frame_index :: nat
  frame_duration :: nat
  frame_label :: "string option"
  frame_element :: "dom_instance option"

record dom_layer =
  layer_name :: string
  dom_frames :: "dom_frame list"

text \<open>Lines 457 to 475: one frame of a layer.\<close>

definition stage_frame :: "real \<Rightarrow> real \<Rightarrow> (nat \<times> slot) list \<Rightarrow> nat \<Rightarrow> dom_frame" where
  "stage_frame g_sx g_sy fmap fi =
     \<lparr>frame_index = fi, frame_duration = 1, frame_label = None,
      frame_element =
        (case map_of fmap fi of
           None \<Rightarrow> None
         | Some entry \<Rightarrow>
             (case slot_m entry of (a, b, c, d, tx, ty) \<Rightarrow>
                Some \<lparr>libraryItemName = slot_name entry,
                      inst_matrix = Some (a * g_sx, b * g_sx, c * g_sy, d * g_sy, tx * g_sx, ty * g_sy),
                      inst_color =
                        (if slot_alpha entry \<noteq> 1
                         then Some (JNum 1, JNum 1, JNum 1, JNum (slot_alpha entry))
                         else None)\<rparr>))\<rparr>"

definition stage_layer :: "real \<Rightarrow> real \<Rightarrow> tracks \<Rightarrow> nat \<Rightarrow> string \<Rightarrow> dom_layer" where
  "stage_layer g_sx g_sy layer_frames n lname =
     \<lparr>layer_name = lname,
      dom_frames =
        map (stage_frame g_sx g_sy (case map_of layer_frames lname of Some m \<Rightarrow> m | None \<Rightarrow> []))
          [0..<n]\<rparr>"

text \<open>
  \<^verbatim>\<open>main\<close> from line 343 on, after the JSON is loaded and the stage size is known:
  \<open>frames\<close> is the list \<^verbatim>\<open>anim.get("frames", [])\<close>, \<open>shared\<close> the table
  \<^verbatim>\<open>anim.get("shared_animations", {})\<close>, \<open>plist\<close> the catalogue keyed by name,
  \<open>png\<close> the listing of the media folder, \<open>g_sx\<close> and \<open>g_sy\<close> the two stage factors.
  The result is what the script writes: image symbols, sprite wrappers and stage layers,
  topmost layer first.
\<close>

record xfl_out =
  images :: "image_symbol list"
  sprites :: "(string \<times> string) list"
  stage_layers :: "dom_layer list"

definition main ::
  "(string \<Rightarrow> real option) \<Rightarrow> nat \<Rightarrow> json list \<Rightarrow> (string \<times> json) list
     \<Rightarrow> (string \<times> (string \<times> json) list) list \<Rightarrow> string list \<Rightarrow> real \<Rightarrow> real
     \<Rightarrow> py_error + xfl_out" where
  "main pf depth frames shared plist png g_sx g_sy =
     (if frames = [] then Inl (SystemExit 3)
      else
        ebind (efold (\<lambda>fr names.
                 ebind (py_get fr ''children'' (JArr [])) (\<lambda>cs. collect depth cs names))
               frames []) (\<lambda>names0.
        ebind (sorted_names (names0 @ map (\<lambda>e. JStr (fst e)) plist)) (\<lambda>names.
        ebind (efold (image_for pf plist (build_png_index png)) names ([], [])) (\<lambda>syms.
        let name_to_image = snd syms;
            layer_frames0 = fold (\<lambda>n. AList.update (sanitize n) []) (map fst name_to_image) []
        in
        ebind (build_tracks pf shared depth frames layer_frames0) (\<lambda>layer_frames.
        ebind (dfs_draw_order shared depth frames) (\<lambda>order.
          Inr \<lparr>images = fst syms,
               sprites = map (\<lambda>e. (sanitize (fst e), snd e)) name_to_image,
               stage_layers =
                 map (stage_layer g_sx g_sy layer_frames (length frames))
                   (rev (bottom_to_top order (map fst layer_frames)))\<rparr>))))))"


section \<open>bbone_to_xfl.py: names, matrices, sprite timeline\<close>

text \<open>\<^verbatim>\<open>def _float(v, d=0.0)\<close>: \<^verbatim>\<open>float(v)\<close>, and \<^verbatim>\<open>float(d)\<close> on any exception.\<close>

definition float_d :: "(string \<Rightarrow> real option) \<Rightarrow> json \<Rightarrow> real \<Rightarrow> real" where
  "float_d pf v d = (case py_float pf v of Inr r \<Rightarrow> r | Inl e \<Rightarrow> d)"

text \<open>\<^verbatim>\<open>str.isspace\<close> and \<^verbatim>\<open>str.strip()\<close> on code points below 256.\<close>

definition py_isspace :: "char \<Rightarrow> bool" where
  "py_isspace c =
     (let n = (of_char c :: nat)
      in (9 \<le> n \<and> n \<le> 13) \<or> (28 \<le> n \<and> n \<le> 32) \<or> n = 133 \<or> n = 160)"

definition py_strip :: "string \<Rightarrow> string" where
  "py_strip s = rev (dropWhile py_isspace (rev (dropWhile py_isspace s)))"

text \<open>\<^verbatim>\<open>n.split(sep)[-1]\<close>: what follows the last separator.\<close>

definition after_last :: "char \<Rightarrow> string \<Rightarrow> string" where
  "after_last sep s = rev (takeWhile (\<lambda>c. c \<noteq> sep) (rev s))"

text \<open>
  \<^verbatim>\<open>_norm_name\<close> on a string, line by line: strip, part after the last slash, part
  after the last backslash, and \<^verbatim>\<open>n[:-4]\<close> when the lowered name ends with ".png".
\<close>

definition norm_name_str :: "string \<Rightarrow> string" where
  "norm_name_str n0 =
     (let n1 = py_strip n0;
          n2 = (if CHR ''/'' \<in> set n1 then after_last CHR ''/'' n1 else n1);
          n3 = (if CHR 0x5C \<in> set n2 then after_last CHR 0x5C n2 else n2)
      in if suffix ''.png'' (py_lower n3) then take (length n3 - 4) n3 else n3)"

text \<open>
  \<^verbatim>\<open>_norm_name\<close> on what \<^verbatim>\<open>ch.get("name")\<close> returns: a false object gives the empty
  name, and only a string has \<^verbatim>\<open>strip\<close>.
\<close>

definition norm_name :: "json \<Rightarrow> py_error + string" where
  "norm_name n =
     (if \<not> truthy n then Inr []
      else case n of JStr s \<Rightarrow> Inr (norm_name_str s) | _ \<Rightarrow> Inl AttributeError)"

text \<open>
  Lines 135 to 139 of \<^verbatim>\<open>_sprite_symbol\<close>: the catalogue name of a child, \<open>None\<close> when
  the child is skipped. \<^verbatim>\<open>aliases\<close> is a dictionary from strings to strings.
\<close>

definition resolve_name :: "(string \<times> string) list \<Rightarrow> json \<Rightarrow> py_error + string option" where
  "resolve_name aliases raw =
     ebind (norm_name raw) (\<lambda>n.
       if n = [] then Inr None
       else Inr (Some (case map_of aliases n of Some c \<Rightarrow> c | None \<Rightarrow> n)))"

text \<open>
  \<^verbatim>\<open>compose_instance_matrix(frame_m, plist_rec)\<close>; \<open>plist_rec\<close> is a catalogue entry
  or the empty dictionary.
\<close>

definition compose_instance_matrix ::
  "(string \<Rightarrow> real option) \<Rightarrow> json \<Rightarrow> (string \<times> json) list \<Rightarrow> py_error + mat" where
  "compose_instance_matrix pf frame_m plist_rec =
     ebind (py_get frame_m ''a'' (JNum 1)) (\<lambda>va. let a = float_d pf va 0 in
     ebind (py_get frame_m ''b'' (JNum 0)) (\<lambda>vb. let b = float_d pf vb 0 in
     ebind (py_get frame_m ''c'' (JNum 0)) (\<lambda>vc. let c = float_d pf vc 0 in
     ebind (py_get frame_m ''d'' (JNum 1)) (\<lambda>vd. let d = float_d pf vd 0 in
     ebind (py_get frame_m ''tx'' (JNum 0)) (\<lambda>vtx. let tx = float_d pf vtx 0 in
     ebind (py_get frame_m ''ty'' (JNum 0)) (\<lambda>vty. let ty = float_d pf vty 0 in
     ebind (py_get (JObj plist_rec) ''origin_x'' (JNum 0)) (\<lambda>vox. let ox = float_d pf vox 0 in
     ebind (py_get (JObj plist_rec) ''origin_y'' (JNum 0)) (\<lambda>voy. let oy = float_d pf voy 0 in
     ebind (py_get (JObj plist_rec) ''scale_x'' (JNum 1)) (\<lambda>vsx. let sx = float_d pf vsx 0 in
     ebind (py_get (JObj plist_rec) ''scale_y'' (JNum 1)) (\<lambda>vsy. let sy = float_d pf vsy 0 in
       Inr (a * sx, b * sx, c * sy, d * sy, a * ox + c * oy + tx, b * ox + d * oy + ty)))))))))))"

text \<open>Lines 203 to 212: the global scale.\<close>

definition apply_global_scale :: "real \<Rightarrow> mat \<Rightarrow> mat" where
  "apply_global_scale s composed =
     (if s \<noteq> 1
      then (case composed of (a, b, c, d, tx, ty) \<Rightarrow> (a * s, b * s, c * s, d * s, tx * s, ty * s))
      else composed)"

text \<open>
  Lines 132 to 142: the dictionary \<^verbatim>\<open>per\<close> of one frame, from catalogue name to child.
\<close>

definition per_child ::
  "(string \<times> string) list \<Rightarrow> json \<Rightarrow> (string \<times> json) list \<Rightarrow> py_error + (string \<times> json) list" where
  "per_child aliases ch per =
     ebind (py_get ch ''name'' JNull) (\<lambda>raw.
     ebind (resolve_name aliases raw) (\<lambda>r.
       case r of None \<Rightarrow> Inr per | Some n \<Rightarrow> Inr (AList.update n ch per)))"

definition frame_map ::
  "(string \<times> string) list \<Rightarrow> json \<Rightarrow> py_error + (string \<times> json) list" where
  "frame_map aliases f =
     ebind (py_get f ''children'' JNull) (\<lambda>c0.
     ebind (py_iter (py_or c0 (JArr []))) (\<lambda>chs.
       efold (per_child aliases) chs []))"

text \<open>The list \<^verbatim>\<open>fmap\<close>, one dictionary per frame, built frame after frame.\<close>

primrec frame_maps ::
  "(string \<times> string) list \<Rightarrow> json list \<Rightarrow> py_error + (string \<times> json) list list" where
  "frame_maps aliases [] = Inr []"
| "frame_maps aliases (f # fs) =
     ebind (frame_map aliases f) (\<lambda>per.
     ebind (frame_maps aliases fs) (\<lambda>rest. Inr (per # rest)))"

text \<open>
  Lines 154 to 167: the frames of the label layer. \<^verbatim>\<open>labels\<close> maps a label to its
  1-based frame number.
\<close>

definition label_frame :: "int \<Rightarrow> nat" where
  "label_frame v = nat (max 0 (v - 1))"

definition label_starts :: "(string \<times> int) list \<Rightarrow> nat \<Rightarrow> nat list" where
  "label_starts labels total_frames =
     (let starts = sort (remdups (map (\<lambda>e. label_frame (snd e)) labels));
          starts1 = (if starts = [] \<or> hd starts \<noteq> 0 then 0 # starts else starts)
      in starts1 @ [total_frames])"

definition label_span :: "(string \<times> int) list \<Rightarrow> nat \<Rightarrow> nat \<Rightarrow> dom_frame" where
  "label_span labels s e =
     \<lparr>frame_index = s,
      frame_duration = nat (max 1 (int e - int s)),
      frame_label =
        (case find (\<lambda>lv. label_frame (snd lv) = s) labels of
           None \<Rightarrow> None
         | Some lv \<Rightarrow> if fst lv \<noteq> [] then Some (fst lv) else None),
      frame_element = None\<rparr>"

definition label_spans :: "(string \<times> int) list \<Rightarrow> nat \<Rightarrow> dom_frame list" where
  "label_spans labels total_frames =
     (let starts = label_starts labels total_frames
      in map (\<lambda>i. label_span labels (starts ! i) (starts ! (i + 1))) [0..<length starts - 1])"

text \<open>\<^verbatim>\<open>_color(parent, c)\<close>: the four multipliers written, nothing for a false \<open>c\<close>.\<close>

definition color_of :: "json \<Rightarrow> py_error + (json \<times> json \<times> json \<times> json) option" where
  "color_of c =
     (if \<not> truthy c then Inr None
      else
        ebind (py_get c ''redMultiplier'' (JNum 1)) (\<lambda>r.
        ebind (py_get c ''greenMultiplier'' (JNum 1)) (\<lambda>g.
        ebind (py_get c ''blueMultiplier'' (JNum 1)) (\<lambda>b.
        ebind (py_get c ''alphaMultiplier'' (JNum 1)) (\<lambda>a.
          Inr (Some (r, g, b, a)))))))"

text \<open>Lines 191 to 214: one frame of the layer of piece \<open>name\<close>.\<close>

definition piece_frame ::
  "(string \<Rightarrow> real option) \<Rightarrow> (string \<times> json) list list \<Rightarrow> (string \<times> json) list \<Rightarrow> real
     \<Rightarrow> string \<Rightarrow> nat \<Rightarrow> py_error + dom_frame" where
  "piece_frame pf fmap pinfo global_scale name idx =
     (if idx \<ge> length fmap then Inl IndexError
      else
        case map_of (fmap ! idx) name of
          None \<Rightarrow>
            Inr \<lparr>frame_index = idx, frame_duration = 1, frame_label = None, frame_element = None\<rparr>
        | Some node \<Rightarrow>
            if \<not> truthy node
            then Inr \<lparr>frame_index = idx, frame_duration = 1, frame_label = None,
                      frame_element = None\<rparr>
            else
              ebind (py_get node ''matrix'' (JObj [])) (\<lambda>fm.
              ebind (compose_instance_matrix pf fm pinfo) (\<lambda>composed.
              ebind (py_get node ''color'' (JObj [])) (\<lambda>c.
              ebind (color_of c) (\<lambda>col.
                Inr \<lparr>frame_index = idx, frame_duration = 1, frame_label = None,
                     frame_element =
                       Some \<lparr>libraryItemName = ''image/'' @ name,
                             inst_matrix = Some (apply_global_scale global_scale composed),
                             inst_color = col\<rparr>\<rparr>)))))"

primrec emap :: "('a \<Rightarrow> py_error + 'b) \<Rightarrow> 'a list \<Rightarrow> py_error + 'b list" where
  "emap f [] = Inr []"
| "emap f (x # xs) = ebind (f x) (\<lambda>y. ebind (emap f xs) (\<lambda>ys. Inr (y # ys)))"

definition piece_layer ::
  "(string \<Rightarrow> real option) \<Rightarrow> (string \<times> json) list list
     \<Rightarrow> (string \<times> (string \<times> json) list) list \<Rightarrow> real \<Rightarrow> nat \<Rightarrow> string \<Rightarrow> py_error + dom_layer" where
  "piece_layer pf fmap plist global_scale total_frames name =
     ebind (emap (piece_frame pf fmap (case map_of plist name of Some e \<Rightarrow> e | None \<Rightarrow> [])
                    global_scale name) [0..<total_frames]) (\<lambda>frs.
       Inr \<lparr>layer_name = name, dom_frames = frs\<rparr>)"

text \<open>Lines 170 to 174: the pieces that get a layer.\<close>

definition layer_order ::
  "string list \<Rightarrow> string list \<Rightarrow> bool \<Rightarrow> string list option \<Rightarrow> string list" where
  "layer_order piece_names used include_unused only =
     (case only of
        Some (x # xs) \<Rightarrow> [n. n \<leftarrow> piece_names, n \<in> norm_name_str ` set (x # xs)]
      | _ \<Rightarrow> if include_unused then piece_names else [n. n \<leftarrow> piece_names, n \<in> set used])"

text \<open>
  \<^verbatim>\<open>_sprite_symbol\<close>: the layers of the sprite timeline, the label layer first when
  there are labels. The two reporting options only print and are left out.
\<close>

definition sprite_symbol ::
  "(string \<Rightarrow> real option) \<Rightarrow> json list \<Rightarrow> string list \<Rightarrow> (string \<times> int) list
     \<Rightarrow> (string \<times> (string \<times> json) list) list \<Rightarrow> bool \<Rightarrow> string list option
     \<Rightarrow> (string \<times> string) list \<Rightarrow> real \<Rightarrow> py_error + dom_layer list" where
  "sprite_symbol pf frames piece_names labels plist include_unused only aliases global_scale =
     (let total_frames = max 1 (length frames) in
      ebind (frame_maps aliases frames) (\<lambda>fmap.
      let used = concat (map (map fst) fmap);
          lab = (if labels \<noteq> []
                 then [\<lparr>layer_name = ''__labels__'', dom_frames = label_spans labels total_frames\<rparr>]
                 else [])
      in
      ebind (emap (piece_layer pf fmap plist global_scale total_frames)
               (layer_order piece_names used include_unused only)) (\<lambda>layers.
        Inr (lab @ layers))))"

text \<open>\<^verbatim>\<open>_sprite_identity\<close>: one layer per piece with a single frame.\<close>

definition sprite_identity :: "string list \<Rightarrow> dom_layer list" where
  "sprite_identity piece_names =
     map (\<lambda>name.
       \<lparr>layer_name = name,
        dom_frames =
          [\<lparr>frame_index = 0, frame_duration = 1, frame_label = None,
            frame_element =
              Some \<lparr>libraryItemName = ''image/'' @ name, inst_matrix = None,
                    inst_color = None\<rparr>\<rparr>]\<rparr>) piece_names"

text \<open>
  Lines 396 to 408 of \<^verbatim>\<open>convert_bbone_to_xfl\<close>: the main sprite timeline that is
  written, from the decoded frames, labels, catalogue and options.
\<close>

definition convert_bbone_to_xfl ::
  "(string \<Rightarrow> real option) \<Rightarrow> json list \<Rightarrow> string list \<Rightarrow> (string \<times> int) list
     \<Rightarrow> (string \<times> (string \<times> json) list) list \<Rightarrow> bool \<Rightarrow> bool \<Rightarrow> string list option
     \<Rightarrow> (string \<times> string) list \<Rightarrow> real \<Rightarrow> py_error + dom_layer list" where
  "convert_bbone_to_xfl pf frames piece_names labels plist identity_sprite include_unused only
       aliases global_scale =
     (if identity_sprite \<or> length frames = 0 then Inr (sprite_identity piece_names)
      else sprite_symbol pf frames piece_names labels plist include_unused only aliases
             global_scale)"


section \<open>Notions used in the statements\<close>

text \<open>The 0-based frames that the labels of a table name.\<close>

definition label_frames :: "(string \<times> int) list \<Rightarrow> nat set" where
  "label_frames labels = set (map (\<lambda>e. label_frame (snd e)) labels)"

text \<open>The start of the span after span \<open>i\<close>, and the sentinel \<open>n\<close> after the last span.\<close>

definition next_start :: "dom_frame list \<Rightarrow> nat \<Rightarrow> nat \<Rightarrow> nat" where
  "next_start spans n i = (if Suc i < length spans then frame_index (spans ! Suc i) else n)"

text \<open>The slot of layer \<open>key\<close> at frame \<open>fi\<close>, \<open>None\<close> when the track has none.\<close>

definition slot_at :: "tracks \<Rightarrow> string \<Rightarrow> nat \<Rightarrow> slot option" where
  "slot_at layer_frames key fi =
     (case map_of layer_frames key of None \<Rightarrow> None | Some fmap \<Rightarrow> map_of fmap fi)"

text \<open>
  All tuples of one frame in traversal order: the results of \<^verbatim>\<open>compose_list\<close> for the
  root bones of the frame, one after the other.
\<close>

definition frame_instances ::
  "(string \<Rightarrow> real option) \<Rightarrow> (string \<times> json) list \<Rightarrow> nat \<Rightarrow> nat \<Rightarrow> json \<Rightarrow> py_error + flat list" where
  "frame_instances pf shared depth fi fr =
     ebind (py_get fr ''children'' (JArr [])) (\<lambda>cs.
     ebind (py_iter cs) (\<lambda>bones.
     ebind (emap (\<lambda>bone. compose_list pf shared depth bone mat_identity 1 fi) bones) (\<lambda>outs.
       Inr (concat outs))))"

text \<open>
  The last tuple of a list whose sanitized name is \<open>key\<close>: the first one found from the
  end.
\<close>

definition last_named :: "string \<Rightarrow> flat list \<Rightarrow> flat option" where
  "last_named key insts = find (\<lambda>i. sanitize_obj (fst i) = Inr key) (rev insts)"

text \<open>
  The catalogue name under which \<^verbatim>\<open>_sprite_symbol\<close> files a child of a frame, \<open>None\<close>
  for a child that is skipped.
\<close>

definition child_name :: "(string \<times> string) list \<Rightarrow> json \<Rightarrow> string option" where
  "child_name aliases ch =
     (case ebind (py_get ch ''name'' JNull) (resolve_name aliases) of
        Inr r \<Rightarrow> r
      | Inl e \<Rightarrow> None)"

definition last_child :: "(string \<times> string) list \<Rightarrow> string \<Rightarrow> json list \<Rightarrow> json option" where
  "last_child aliases n chs = find (\<lambda>ch. child_name aliases ch = Some n) (rev chs)"

text \<open>
  The slot written for a tuple, and the slot of layer \<open>key\<close> after a list of tuples has
  been recorded over a slot \<open>base\<close>.
\<close>

definition mk_slot :: "string \<Rightarrow> flat \<Rightarrow> slot" where
  "mk_slot key inst = \<lparr>slot_name = ''sprite/'' @ key, slot_m = fst (snd inst), slot_alpha = snd (snd inst)\<rparr>"

definition upd_slot :: "string \<Rightarrow> flat list \<Rightarrow> slot option \<Rightarrow> slot option" where
  "upd_slot key insts base =
     (case last_named key insts of None \<Rightarrow> base | Some i \<Rightarrow> Some (mk_slot key i))"

text \<open>
  What \<^verbatim>\<open>float(M.get(k, d))\<close> gives for a dictionary with lookup \<open>m\<close>, and the matrix
  \<^verbatim>\<open>compose_list\<close> reads from it, field after field.
\<close>

definition float_field ::
  "(string \<Rightarrow> real option) \<Rightarrow> (string \<rightharpoonup> json) \<Rightarrow> string \<Rightarrow> real \<Rightarrow> py_error + real" where
  "float_field pf m k d = (case m k of None \<Rightarrow> Inr d | Some v \<Rightarrow> py_float pf v)"

definition float_fields :: "(string \<Rightarrow> real option) \<Rightarrow> (string \<rightharpoonup> json) \<Rightarrow> py_error + mat" where
  "float_fields pf m =
     ebind (float_field pf m ''a'' 1) (\<lambda>a.
     ebind (float_field pf m ''b'' 0) (\<lambda>b.
     ebind (float_field pf m ''c'' 0) (\<lambda>c.
     ebind (float_field pf m ''d'' 1) (\<lambda>d.
     ebind (float_field pf m ''tx'' 0) (\<lambda>tx.
     ebind (float_field pf m ''ty'' 0) (\<lambda>ty.
       Inr (a, b, c, d, tx, ty)))))))"

text \<open>What \<^verbatim>\<open>_float(m.get(k, d))\<close> gives for a dictionary with lookup \<open>m\<close>.\<close>

definition safe_field ::
  "(string \<Rightarrow> real option) \<Rightarrow> (string \<rightharpoonup> json) \<Rightarrow> string \<Rightarrow> real \<Rightarrow> real" where
  "safe_field pf m k d = float_d pf (case m k of None \<Rightarrow> JNum d | Some v \<Rightarrow> v) 0"

text \<open>The six keys of a matrix with the values of the identity.\<close>

definition identity_value :: "string \<Rightarrow> real" where
  "identity_value k = (if k = ''a'' \<or> k = ''d'' then 1 else 0)"

definition matrix_keys :: "string list" where
  "matrix_keys = [''a'', ''b'', ''c'', ''d'', ''tx'', ''ty'']"

text \<open>
  The dictionary \<^verbatim>\<open>layer_frames\<close> as line 435 of \<^verbatim>\<open>main\<close> creates it: an empty track
  for the sanitized name of every piece that has an image.
\<close>

definition init_tracks :: "(string \<times> string) list \<Rightarrow> tracks" where
  "init_tracks name_to_image = fold (\<lambda>n. AList.update (sanitize n) []) (map fst name_to_image) []"

text \<open>
  The test of the last loop of \<^verbatim>\<open>find_png_for_name\<close>: the lowered name occurs in the
  lowered key, or the lowered key occurs in the lowered name.
\<close>

definition loosely_matches :: "string \<Rightarrow> string \<times> string \<Rightarrow> bool" where
  "loosely_matches name kp \<longleftrightarrow>
     sublist (py_lower name) (py_lower (fst kp)) \<or> sublist (py_lower (fst kp)) (py_lower name)"

text \<open>
  The sanitized non-empty names of a list of tuples, in the order of the list: what the
  traversal of \<^verbatim>\<open>dfs_draw_order\<close> records for the nodes that produced the tuples.
\<close>

definition flat_names :: "flat list \<Rightarrow> string list" where
  "flat_names out =
     concat (map (\<lambda>i. case fst i of
                          JStr s \<Rightarrow> if s \<noteq> [] then [sanitize s] else []
                        | _ \<Rightarrow> []) out)"

text \<open>
  Small inputs for the concrete statements: the scene of a head with one eye at (5, 10),
  a timeline of one frame with this scene, a frame in which the name "a" occurs twice,
  and a timeline of two frames, the piece "b" in the first, "c" and "a" in the second.
\<close>

definition scene_eye :: json where
  "scene_eye =
     JObj [(''name'', JStr ''eye''), (''matrix'', JObj [(''tx'', JNum 5), (''ty'', JNum 10)])]"

definition scene_head :: json where
  "scene_head = JObj [(''name'', JStr ''head''), (''children'', JArr [scene_eye])]"

definition frames_head :: "json list" where
  "frames_head = [JObj [(''children'', JArr [scene_head])]]"

definition frames_a_twice :: "json list" where
  "frames_a_twice =
     [JObj [(''children'',
             JArr [JObj [(''name'', JStr ''a''), (''matrix'', JObj [(''tx'', JNum 1)])],
                   JObj [(''name'', JStr ''a''), (''matrix'', JObj [(''tx'', JNum 7)])]])]]"


text \<open>
  A table with the shared animation "blink" of two records, and a node that refers to it:
  the node has a matrix, an alpha multiplier and a child of its own.
\<close>

definition blink_open :: json where
  "blink_open = JObj [(''name'', JStr ''open''), (''matrix'', JObj [(''tx'', JNum 1)])]"

definition blink_shut :: json where
  "blink_shut = JObj [(''name'', JStr ''shut'')]"

definition blink_table :: "(string \<times> json) list" where
  "blink_table =
     [(''blink'', JArr [JObj [(''children'', JArr [blink_open])],
                        JObj [(''children'', JArr [blink_shut])]])]"

definition blinking_eye :: "(string \<times> json) list" where
  "blinking_eye =
     [(''name'', JStr ''eye''), (''matrix'', JObj [(''tx'', JNum 5)]),
      (''color'', JObj [(''alphaMultiplier'', JNum (1 / 2))]),
      (''children'', JArr [JObj [(''name'', JStr ''own'')]]),
      (''references_shared_animation'', JStr ''blink'')]"

section \<open>Basic facts\<close>

lemma ebind_Inr [simp]: "ebind (Inr x) f = f x"
  by (simp add: ebind_def)

lemma ebind_Inl [simp]: "ebind (Inl e) f = Inl e"
  by (simp add: ebind_def)

lemma ebind_eq_Inr: "ebind m f = Inr y \<longleftrightarrow> (\<exists>x. m = Inr x \<and> f x = Inr y)"
  by (cases m) simp_all

section \<open>Empty timelines\<close>

text \<open>
  C2, as amended. \<^verbatim>\<open>main\<close> of bbone_to_xfl_symbols.py rejects a timeline without frames:
  it exits with status 3 and writes nothing. \<^verbatim>\<open>convert_bbone_to_xfl\<close> does not reject
  it: for zero frames it writes the identity sprite, one layer per catalogue piece, each
  with a single frame of duration 1 at index 0 that holds an instance of the piece.
\<close>

theorem empty_timeline:
  "main pf depth [] shared plist png g_sx g_sy = Inl (SystemExit 3)
   \<and> convert_bbone_to_xfl pf [] piece_names labels plist identity_sprite include_unused only
        aliases global_scale =
      Inr (map (\<lambda>name.
             \<lparr>layer_name = name,
              dom_frames =
                [\<lparr>frame_index = 0, frame_duration = 1, frame_label = None,
                  frame_element =
                    Some \<lparr>libraryItemName = ''image/'' @ name, inst_matrix = None,
                          inst_color = None\<rparr>\<rparr>]\<rparr>) piece_names)"
  by (simp add: main_def convert_bbone_to_xfl_def sprite_identity_def)

theorem empty_timeline_witness:
  "main (\<lambda>s. None) 5 [] [] [] [''eye''] 1 1 = Inl (SystemExit 3)
   \<and> convert_bbone_to_xfl (\<lambda>s. None) [] [''eye''] [] [] False False None [] 1 =
      Inr [\<lparr>layer_name = ''eye'',
            dom_frames =
              [\<lparr>frame_index = 0, frame_duration = 1, frame_label = None,
                frame_element =
                  Some \<lparr>libraryItemName = ''image/eye'', inst_matrix = None,
                        inst_color = None\<rparr>\<rparr>]\<rparr>]"
  using empty_timeline [of "\<lambda>s. None" 5 "[]" "[]" "[''eye'']" 1 1 "[''eye'']" "[]" False False None "[]" 1]
  by simp

text \<open>
  The claim as stated fails twice. \<^verbatim>\<open>convert_bbone_to_xfl\<close> with zero frames returns
  no error and writes a timeline with one frame for the piece; and \<^verbatim>\<open>main\<close> with a
  non-empty timeline can still fail, here with TypeError on a matrix field that is null.
\<close>

theorem empty_timeline_counterexample:
  "convert_bbone_to_xfl (\<lambda>s. None) [] [''eye''] [] [] False False None [] 1 =
      Inr [\<lparr>layer_name = ''eye'',
            dom_frames =
              [\<lparr>frame_index = 0, frame_duration = 1, frame_label = None,
                frame_element =
                  Some \<lparr>libraryItemName = ''image/eye'', inst_matrix = None,
                        inst_color = None\<rparr>\<rparr>]\<rparr>]
   \<and> main (\<lambda>s. None) 5
        [JObj [(''children'', JArr [JObj [(''matrix'', JObj [(''a'', JNull)])]])]]
        [] [] [] 1 1 = Inl TypeError"
  by code_simp

section \<open>Label spans\<close>

lemma cons0_sorted_list:
  fixes S :: "nat set"
  assumes fin: "finite S" and st: "st = sorted_list_of_set S"
  shows "(if st = [] \<or> hd st \<noteq> 0 then 0 # st else st) = sorted_list_of_set (insert 0 S)"
proof -
  define s1 where "s1 = (if st = [] \<or> hd st \<noteq> 0 then 0 # st else st)"
  have sst: "sorted st" "distinct st" "set st = S" using fin st by simp_all
  have s1: "sorted s1 \<and> distinct s1 \<and> set s1 = insert 0 S"
  proof (cases "st = [] \<or> hd st \<noteq> 0")
    case True
    have "0 \<notin> set st"
    proof
      assume in0: "0 \<in> set st"
      then obtain x xs where xs: "st = x # xs" by (cases st) auto
      then have "x \<le> 0" using sst(1) in0 by auto
      then show False using True xs by simp
    qed
    then show ?thesis using True sst by (auto simp: s1_def)
  next
    case False
    then have ne: "st \<noteq> []" and h: "hd st = 0" by auto
    then have "0 \<in> set st" by (metis hd_in_set)
    then have "insert 0 S = S" using sst by auto
    then show ?thesis using False sst by (auto simp: s1_def)
  qed
  have "sorted_list_of_set (set s1) = s1"
    by (rule sorted_list_of_set.idem_if_sorted_distinct) (use s1 in simp_all)
  then show ?thesis using s1 by (simp add: s1_def)
qed

lemma label_starts_eq:
  "label_starts labels n = sorted_list_of_set (insert 0 (label_frames labels)) @ [n]"
proof -
  have st: "sort (remdups (map (\<lambda>e. label_frame (snd e)) labels)) = sorted_list_of_set (label_frames labels)"
    unfolding label_frames_def by (rule sorted_list_of_set_sort_remdups [symmetric])
  have fin: "finite (label_frames labels)" by (simp add: label_frames_def)
  show ?thesis
    unfolding label_starts_def Let_def using cons0_sorted_list [OF fin st] by simp
qed

lemma telescope:
  fixes L :: "nat list"
  assumes "sorted L" "k < length L"
  shows "sum_list (map (\<lambda>i. L ! Suc i - L ! i) [0..<k]) = L ! k - L ! 0"
  using assms(2)
proof (induction k)
  case 0
  then show ?case by simp
next
  case (Suc k)
  have a: "L ! 0 \<le> L ! k" using assms(1) Suc.prems by (simp add: sorted_nth_mono)
  have b: "L ! k \<le> L ! Suc k" using assms(1) Suc.prems by (simp add: sorted_nth_mono)
  show ?case using Suc a b by simp
qed


lemma label_spans_nth:
  assumes "i < length (label_starts labels n) - 1"
  shows "label_spans labels n ! i
         = label_span labels (label_starts labels n ! i) (label_starts labels n ! Suc i)"
  using assms by (simp add: label_spans_def Let_def)

lemma length_label_spans: "length (label_spans labels n) = length (label_starts labels n) - 1"
  by (simp add: label_spans_def Let_def)

lemma label_starts_strict:
  assumes ne: "labels \<noteq> []" and lt: "\<forall>e \<in> set labels. label_frame (snd e) < n"
  shows "sorted_wrt (<) (label_starts labels n)"
proof -
  let ?S = "insert 0 (label_frames labels)"
  have fin: "finite ?S" by (simp add: label_frames_def)
  obtain e es where "labels = e # es" using ne by (cases labels) auto
  then have npos: "0 < n" using lt by auto
  have all: "\<forall>x \<in> ?S. x < n" using lt npos by (auto simp: label_frames_def)
  have "sorted_wrt (<) (sorted_list_of_set ?S)"
    using fin by (simp add: strict_sorted_iff del: sorted_list_of_set_insert_remove)
  moreover have "set (sorted_list_of_set ?S) = ?S"
    using fin by (rule set_sorted_list_of_set)
  ultimately show ?thesis
    using all unfolding label_starts_eq by (simp add: sorted_wrt_append del: sorted_list_of_set_insert_remove)
qed

lemma label_starts_hd:
  "label_starts labels n ! 0 = 0"
proof -
  let ?S = "insert 0 (label_frames labels)"
  have fin: "finite ?S" by (simp add: label_frames_def)
  have set: "set (sorted_list_of_set ?S) = ?S" using fin by (rule set_sorted_list_of_set)
  have srt: "sorted (sorted_list_of_set ?S)" by (rule sorted_sorted_list_of_set)
  obtain x xs where xs: "sorted_list_of_set ?S = x # xs"
    using set by (cases "sorted_list_of_set ?S") auto
  have "0 \<in> set (x # xs)" using set xs by simp
  then have "x \<le> 0" using srt xs by auto
  then show ?thesis unfolding label_starts_eq xs by simp
qed

lemma label_starts_last: "label_starts labels n ! (length (label_starts labels n) - 1) = n"
proof -
  obtain sl where "label_starts labels n = sl @ [n]" using label_starts_eq by blast
  then show ?thesis by simp
qed

lemma snoc_length_pos: "xs \<noteq> [] \<Longrightarrow> 0 < length (xs @ [n]) - 1"
  by simp

lemma label_starts_pos: "0 < length (label_starts labels n) - 1"
proof -
  let ?S = "insert 0 (label_frames labels)"
  have fin: "finite ?S" by (simp add: label_frames_def)
  have "set (sorted_list_of_set ?S) = ?S" using fin by (rule set_sorted_list_of_set)
  then have ne: "sorted_list_of_set ?S \<noteq> []" by auto
  show ?thesis unfolding label_starts_eq by (rule snoc_length_pos [OF ne])
qed

lemma find_SomeD: "find P xs = Some x \<Longrightarrow> x \<in> set xs \<and> P x"
  by (induction xs) (auto split: if_splits)

lemma label_starts_butlast:
  "take (length (label_starts labels n) - 1) (label_starts labels n)
   = sorted_list_of_set (insert 0 (label_frames labels))"
proof -
  obtain sl where sl: "label_starts labels n = sl @ [n]"
    "sl = sorted_list_of_set (insert 0 (label_frames labels))"
    using label_starts_eq by blast
  have "take (length (sl @ [n]) - 1) (sl @ [n]) = sl" by simp
  then show ?thesis using sl by simp
qed

lemma label_span_index [simp]: "frame_index (label_span labels s e) = s"
  by (simp add: label_span_def)

lemma label_span_duration [simp]:
  "frame_duration (label_span labels s e) = nat (max 1 (int e - int s))"
  by (simp add: label_span_def)

lemma label_span_label:
  assumes "frame_label (label_span labels s e) = Some l"
  shows "\<exists>v. (l, v) \<in> set labels \<and> label_frame v = s"
proof -
  from assms obtain lv where f: "find (\<lambda>lv. label_frame (snd lv) = s) labels = Some lv"
    and l: "fst lv = l"
    by (auto simp: label_span_def split: option.splits if_splits)
  from f have "lv \<in> set labels \<and> label_frame (snd lv) = s"
    by (rule find_SomeD)
  then show ?thesis using l by (cases lv) auto
qed

lemma starts_mono:
  assumes "sorted_wrt (<) (L :: nat list)" "Suc i < length L"
  shows "L ! i < L ! Suc i"
  using assms by (simp add: sorted_wrt_nth_less)

lemma sprite_symbol_label_layer:
  assumes "sprite_symbol pf frames piece_names labels plist include_unused only aliases
             global_scale = Inr layers"
    and "labels \<noteq> []"
  shows "hd layers =
           \<lparr>layer_name = ''__labels__'',
            dom_frames = label_spans labels (max 1 (length frames))\<rparr>"
  using assms unfolding sprite_symbol_def Let_def by (auto simp: ebind_eq_Inr)

text \<open>
  C5, as amended. For every label table that is not empty and whose 0-based label frames
  \<open>max(0, v - 1)\<close> all lie below the frame count \<open>n\<close>, the spans of the label layer
  partition \<open>[0, n)\<close>: their starts are the distinct label frames together with frame 0,
  in ascending order; every span has the duration \<open>max(1, next - start)\<close> and ends where
  the next one starts, the last one at \<open>n\<close>; the first starts at 0; the durations sum to
  \<open>n\<close>; and a span carries a name only if a label maps to its start frame. These spans
  are the first layer of the sprite timeline whenever \<^verbatim>\<open>_sprite_symbol\<close> returns.
\<close>

theorem label_spans_partition:
  assumes ne: "labels \<noteq> []" and lt: "\<forall>e \<in> set labels. label_frame (snd e) < n"
  shows
    "sorted (map frame_index (label_spans labels n))
     \<and> distinct (map frame_index (label_spans labels n))
     \<and> set (map frame_index (label_spans labels n)) = insert 0 (label_frames labels)
     \<and> (\<forall>i < length (label_spans labels n).
          frame_duration (label_spans labels n ! i)
            = max 1 (next_start (label_spans labels n) n i - frame_index (label_spans labels n ! i))
          \<and> frame_index (label_spans labels n ! i) + frame_duration (label_spans labels n ! i)
            = next_start (label_spans labels n) n i)
     \<and> frame_index (label_spans labels n ! 0) = 0
     \<and> sum_list (map frame_duration (label_spans labels n)) = n
     \<and> (\<forall>i < length (label_spans labels n). \<forall>l.
          frame_label (label_spans labels n ! i) = Some l
          \<longrightarrow> (\<exists>v. (l, v) \<in> set labels \<and> label_frame v = frame_index (label_spans labels n ! i)))
     \<and> (\<forall>pf frames piece_names plist include_unused only aliases global_scale layers.
          length frames = n
          \<longrightarrow> sprite_symbol pf frames piece_names labels plist include_unused only aliases
                global_scale = Inr layers
          \<longrightarrow> hd layers = \<lparr>layer_name = ''__labels__'', dom_frames = label_spans labels n\<rparr>)"
proof -
  define L where "L = label_starts labels n"
  define sp where "sp = label_spans labels n"
  let ?S = "insert 0 (label_frames labels)"
  have fin: "finite ?S" by (simp add: label_frames_def)
  have strict: "sorted_wrt (<) L" unfolding L_def using ne lt by (rule label_starts_strict)
  have len: "length sp = length L - 1" by (simp add: sp_def L_def length_label_spans)
  have pos: "0 < length L - 1" unfolding L_def by (rule label_starts_pos)
  have nth: "sp ! i = label_span labels (L ! i) (L ! Suc i)" if "i < length sp" for i
    using that unfolding sp_def L_def by (simp add: label_spans_nth length_label_spans)
  have idx: "frame_index (sp ! i) = L ! i" if "i < length sp" for i
    using nth [OF that] by simp
  have step: "L ! i < L ! Suc i" if "i < length sp" for i
    using strict that len by (intro starts_mono) simp_all
  have dur: "frame_duration (sp ! i) = L ! Suc i - L ! i" if "i < length sp" for i
    using nth [OF that] step [OF that] by simp
  have nxt: "next_start sp n i = L ! Suc i" if "i < length sp" for i
  proof (cases "Suc i < length sp")
    case True
    then show ?thesis by (simp add: next_start_def idx)
  next
    case False
    then have "Suc i = length L - 1" using that len by simp
    then have "L ! Suc i = n" unfolding L_def using label_starts_last [of labels n] by simp
    then show ?thesis using False by (simp add: next_start_def)
  qed
  have mapidx: "map frame_index sp = sorted_list_of_set ?S"
  proof -
    have "map frame_index sp = map (\<lambda>i. L ! i) [0..<length sp]"
      by (rule nth_equalityI) (simp_all add: idx)
    also have "\<dots> = take (length sp) L"
      using len by (intro nth_equalityI) simp_all
    also have "\<dots> = sorted_list_of_set ?S"
      using len label_starts_butlast [of labels n] by (simp add: L_def)
    finally show ?thesis .
  qed
  have p1: "sorted (map frame_index sp)" unfolding mapidx by (rule sorted_sorted_list_of_set)
  have p2: "distinct (map frame_index sp)" unfolding mapidx by (rule distinct_sorted_list_of_set)
  have p3: "set (map frame_index sp) = ?S" unfolding mapidx using fin by (rule set_sorted_list_of_set)
  have p4: "\<forall>i < length sp.
          frame_duration (sp ! i) = max 1 (next_start sp n i - frame_index (sp ! i))
          \<and> frame_index (sp ! i) + frame_duration (sp ! i) = next_start sp n i"
  proof (intro allI impI)
    fix i assume i: "i < length sp"
    from step [OF i] show "frame_duration (sp ! i) = max 1 (next_start sp n i - frame_index (sp ! i))
          \<and> frame_index (sp ! i) + frame_duration (sp ! i) = next_start sp n i"
      by (simp add: dur [OF i] nxt [OF i] idx [OF i])
  qed
  have p5: "frame_index (sp ! 0) = 0"
    using pos len idx [of 0] label_starts_hd [of labels n] by (simp add: L_def)
  have p6: "sum_list (map frame_duration sp) = n"
  proof -
    have "map frame_duration sp = map (\<lambda>i. L ! Suc i - L ! i) [0..<length sp]"
      by (rule nth_equalityI) (simp_all add: dur)
    then have "sum_list (map frame_duration sp) = L ! (length sp) - L ! 0"
      using telescope [of L "length sp"] strict len pos
      by (simp add: strict_sorted_iff)
    also have "\<dots> = n"
      using len label_starts_last [of labels n] label_starts_hd [of labels n] by (simp add: L_def)
    finally show ?thesis .
  qed
  have p7: "\<forall>i < length sp. \<forall>l. frame_label (sp ! i) = Some l
          \<longrightarrow> (\<exists>v. (l, v) \<in> set labels \<and> label_frame v = frame_index (sp ! i))"
    using label_span_label by (auto simp: nth)
  obtain e es where "labels = e # es" using ne by (cases labels) auto
  then have npos: "max 1 n = n" using lt by auto
  have p8: "\<forall>pf frames piece_names plist include_unused only aliases global_scale layers.
          length frames = n
          \<longrightarrow> sprite_symbol pf frames piece_names labels plist include_unused only aliases
                global_scale = Inr layers
          \<longrightarrow> hd layers = \<lparr>layer_name = ''__labels__'', dom_frames = sp\<rparr>"
    using sprite_symbol_label_layer [OF _ ne] npos unfolding sp_def by metis
  show ?thesis unfolding sp_def [symmetric] by (intro conjI p1 p2 p3 p4 p5 p6 p7 p8)
qed

theorem label_spans_partition_witness:
  "sum_list (map frame_duration (label_spans [(''walk'', 1), (''idle'', 6)] 10)) = 10
   \<and> set (map frame_index (label_spans [(''walk'', 1), (''idle'', 6)] 10))
       = insert 0 (label_frames [(''walk'', 1), (''idle'', 6)])"
proof -
  have h1: "[(''walk'', 1 :: int), (''idle'', 6)] \<noteq> []" by simp
  have h2: "\<forall>e \<in> set [(''walk'', 1 :: int), (''idle'', 6)]. label_frame (snd e) < 10"
    by (simp add: label_frame_def)
  show ?thesis using label_spans_partition [OF h1 h2] by simp
qed

text \<open>
  The claim as stated, for every label table, fails. A label beyond the last frame
  (frame number 20 of 10) gives two spans that run to frame 20, with durations 19 and 1;
  and for the empty table \<^verbatim>\<open>_sprite_symbol\<close> writes no label layer at all.
\<close>

theorem label_spans_counterexample:
  "label_spans [(''x'', 20)] 10 =
     [\<lparr>frame_index = 0, frame_duration = 19, frame_label = None, frame_element = None\<rparr>,
      \<lparr>frame_index = 19, frame_duration = 1, frame_label = Some ''x'', frame_element = None\<rparr>]
   \<and> sprite_symbol (\<lambda>s. None) [JObj []] [] [] [] False None [] 1 = Inr []"
  by code_simp

section \<open>Shared animations\<close>

lemma effective_children_ref:
  assumes "map_of b ''references_shared_animation'' = Some (JStr r)" "r \<noteq> []"
  shows "effective_children shared (JObj b) kids fi =
           (case map_of shared r of
              Some (JArr (x # xs)) \<Rightarrow>
                py_get (py_or ((x # xs) ! (fi mod length (x # xs))) (JObj [])) ''children'' kids
            | _ \<Rightarrow> Inr kids)"
  using assms
  by (simp add: effective_children_def split: option.splits json.splits list.splits)

lemma effective_children_hit:
  assumes "map_of b ''references_shared_animation'' = Some (JStr r)" "r \<noteq> []"
    and "map_of shared r = Some (JArr sa)" "sa \<noteq> []"
    and "sa ! (fi mod length sa) = JObj fr" "map_of fr ''children'' = Some ks"
  shows "effective_children shared (JObj b) kids fi = Inr ks"
proof -
  obtain x xs where sa: "sa = x # xs" using assms(4) by (cases sa) auto
  have "fr \<noteq> []" using assms(6) by auto
  then have "py_or (sa ! (fi mod length sa)) (JObj []) = JObj fr"
    using assms(5) by (simp add: py_or_def)
  then show ?thesis
    using assms(3,6) sa by (simp add: effective_children_ref [OF assms(1,2)])
qed

lemma effective_children_miss:
  assumes "map_of b ''references_shared_animation'' = Some (JStr r)" "r \<noteq> []"
    and "map_of shared r = None \<or> map_of shared r = Some (JArr [])"
  shows "effective_children shared (JObj b) kids fi = Inr kids"
  using assms(3) by (auto simp: effective_children_ref [OF assms(1,2)])

lemma compose_children_emap:
  "compose_children pf shared depth chs pw pa fi =
     ebind (emap (\<lambda>ch. compose_list pf shared depth ch pw pa fi) chs)
       (\<lambda>outs. Inr (concat outs))"
proof (induction chs)
  case Nil
  show ?case by simp
next
  case (Cons ch chs)
  show ?case
    by (cases "compose_list pf shared depth ch pw pa fi";
        cases "emap (\<lambda>ch. compose_list pf shared depth ch pw pa fi) chs")
       (simp_all add: Cons.IH)
qed

lemma walk_children_emap:
  "walk_children shared depth chs fi =
     ebind (emap (\<lambda>ch. walk shared depth ch fi) chs) (\<lambda>outs. Inr (concat outs))"
proof (induction chs)
  case Nil
  show ?case by simp
next
  case (Cons ch chs)
  show ?case
    by (cases "walk shared depth ch fi"; cases "emap (\<lambda>ch. walk shared depth ch fi) chs")
       (simp_all add: Cons.IH)
qed

lemma local_alpha_read:
  assumes "map_of b ''color'' = None \<and> col = [] \<or> map_of b ''color'' = Some (JObj col)"
  shows "local_alpha pf (JObj b) =
           py_float pf (case map_of col ''alphaMultiplier'' of Some v \<Rightarrow> v | None \<Rightarrow> JNum 1)"
  using assms by (cases "col = []") (auto simp: local_alpha_def py_or_def)

lemma local_matrix_read:
  assumes "map_of b ''matrix'' = None \<and> M = [] \<or> map_of b ''matrix'' = Some (JObj M)"
    and "map (\<lambda>(k, dflt). py_float pf (case map_of M k of Some v \<Rightarrow> v | None \<Rightarrow> JNum dflt))
           [(''a'', 1), (''b'', 0), (''c'', 0), (''d'', 1), (''tx'', 0), (''ty'', 0)]
         = map Inr [m_a, m_b, m_c, m_d, m_tx, m_ty]"
  shows "local_matrix pf (JObj b) = Inr (m_a, m_b, m_c, m_d, m_tx, m_ty)"
proof -
  have "py_or (case map_of b ''matrix'' of Some v \<Rightarrow> v | None \<Rightarrow> JObj []) (JObj []) = JObj M"
    using assms(1) by (cases "M = []") (auto simp: py_or_def)
  then show ?thesis
    using assms(2) by (simp add: local_matrix_def)
qed

lemma compose_list_shared:
  assumes "effective_children shared (JObj b) (case map_of b ''children'' of Some v \<Rightarrow> v | None \<Rightarrow> JNull) fi = Inr (JArr chs)"
    and "local_matrix pf (JObj b) = Inr L" and "local_alpha pf (JObj b) = Inr am"
  shows "compose_list pf shared (Suc depth) (JObj b) pw pa fi =
          ebind (emap (\<lambda>ch. compose_list pf shared depth ch (mul pw L) (am * pa) fi) chs)
            (\<lambda>outs. Inr ((case map_of b ''name'' of Some v \<Rightarrow> v | None \<Rightarrow> JStr [], mul pw L, am * pa)
                         # concat outs))"
  using assms
  by (cases "emap (\<lambda>ch. compose_list pf shared depth ch (mul pw L) (am * pa) fi) chs")
     (simp_all add: compose_children_emap)

lemma walk_shared:
  assumes "effective_children shared (JObj b) (case map_of b ''children'' of Some v \<Rightarrow> v | None \<Rightarrow> JNull) fi = Inr (JArr chs)"
  shows "walk shared (Suc depth) (JObj b) fi =
          ebind (sanitize_obj (case map_of b ''name'' of Some v \<Rightarrow> v | None \<Rightarrow> JStr [])) (\<lambda>n.
          ebind (emap (\<lambda>ch. walk shared depth ch fi) chs) (\<lambda>outs.
            Inr ((if n \<noteq> [] then [n] else []) @ concat outs)))"
  using assms
  by (cases "sanitize_obj (case map_of b ''name'' of Some v \<Rightarrow> v | None \<Rightarrow> JStr [])";
      cases "emap (\<lambda>ch. walk shared depth ch fi) chs")
     (simp_all add: walk_children_emap)


text \<open>
  C3. Let a node carry the shared-animation reference \<open>r\<close>, a non-empty string, and let
  \<open>fi\<close> be the outer frame index. If the table has a non-empty list \<open>sa\<close> for \<open>r\<close>
  whose record at \<open>fi mod length sa\<close> has children \<open>ks\<close>, the children descended into
  are \<open>ks\<close>. If \<open>r\<close> is not in the table, or its entry is the empty list, they are the
  node's own children, and no exception occurs. With substituted children \<open>chs\<close> the
  node's own fields still make its world state: when its matrix reads as
  \<open>(m_a, m_b, m_c, m_d, m_tx, m_ty)\<close>, a missing field taking its default, and its alpha
  multiplier as \<open>am\<close>, \<^verbatim>\<open>compose_list\<close> returns the node's tuple with the parent matrix
  composed with this matrix and with alpha \<open>am\<close> times the parent alpha, followed by the
  results of \<^verbatim>\<open>compose_list\<close> for every child in \<open>chs\<close>, in order, each computed under
  that world state; it fails where the first of these children fails. The walk of
  \<^verbatim>\<open>dfs_draw_order\<close> records the node's name and then walks the same children. For an
  entry of two records, the outer frames 0, 2, 4 take the first and 1, 3 the second.
\<close>

theorem shared_animation_substitution:
  assumes ref: "map_of b ''references_shared_animation'' = Some (JStr r)" and r: "r \<noteq> []"
  shows
    "(map_of shared r = Some (JArr sa) \<and> sa \<noteq> [] \<and> sa ! (fi mod length sa) = JObj fr
        \<and> map_of fr ''children'' = Some ks
      \<longrightarrow> effective_children shared (JObj b) kids fi = Inr ks)
     \<and> (map_of shared r = None \<or> map_of shared r = Some (JArr [])
      \<longrightarrow> effective_children shared (JObj b) kids fi = Inr kids)
     \<and> (map_of shared r = Some (JArr sa) \<and> sa \<noteq> [] \<and> sa ! (fi mod length sa) = JObj fr
        \<and> map_of fr ''children'' = Some (JArr chs)
        \<and> (map_of b ''matrix'' = None \<and> M = [] \<or> map_of b ''matrix'' = Some (JObj M))
        \<and> map (\<lambda>(k, dflt). py_float pf (case map_of M k of Some v \<Rightarrow> v | None \<Rightarrow> JNum dflt))
              [(''a'', 1), (''b'', 0), (''c'', 0), (''d'', 1), (''tx'', 0), (''ty'', 0)]
            = map Inr [m_a, m_b, m_c, m_d, m_tx, m_ty]
        \<and> (map_of b ''color'' = None \<and> col = [] \<or> map_of b ''color'' = Some (JObj col))
        \<and> py_float pf (case map_of col ''alphaMultiplier'' of Some v \<Rightarrow> v | None \<Rightarrow> JNum 1)
            = Inr am
      \<longrightarrow> compose_list pf shared (Suc depth) (JObj b) pw pa fi =
            ebind (emap (\<lambda>ch. compose_list pf shared depth ch
                                 (mul pw (m_a, m_b, m_c, m_d, m_tx, m_ty)) (am * pa) fi) chs)
              (\<lambda>outs. Inr ((case map_of b ''name'' of Some v \<Rightarrow> v | None \<Rightarrow> JStr [],
                             mul pw (m_a, m_b, m_c, m_d, m_tx, m_ty), am * pa) # concat outs))
          \<and> walk shared (Suc depth) (JObj b) fi =
            ebind (sanitize_obj (case map_of b ''name'' of Some v \<Rightarrow> v | None \<Rightarrow> JStr [])) (\<lambda>n.
            ebind (emap (\<lambda>ch. walk shared depth ch fi) chs) (\<lambda>outs.
              Inr ((if n \<noteq> [] then [n] else []) @ concat outs))))
     \<and> (map_of shared r = Some (JArr [JObj fa, JObj fb])
        \<and> map_of fa ''children'' = Some A \<and> map_of fb ''children'' = Some B
      \<longrightarrow> map (effective_children shared (JObj b) kids) [0, 1, 2, 3, 4]
          = [Inr A, Inr B, Inr A, Inr B, Inr A])"
proof (intro conjI impI)
  assume "map_of shared r = Some (JArr sa) \<and> sa \<noteq> [] \<and> sa ! (fi mod length sa) = JObj fr
        \<and> map_of fr ''children'' = Some ks"
  then show "effective_children shared (JObj b) kids fi = Inr ks"
    using effective_children_hit [OF ref r] by blast
next
  assume "map_of shared r = None \<or> map_of shared r = Some (JArr [])"
  then show "effective_children shared (JObj b) kids fi = Inr kids"
    by (rule effective_children_miss [OF ref r])
next
  assume h: "map_of shared r = Some (JArr sa) \<and> sa \<noteq> [] \<and> sa ! (fi mod length sa) = JObj fr
        \<and> map_of fr ''children'' = Some (JArr chs)
        \<and> (map_of b ''matrix'' = None \<and> M = [] \<or> map_of b ''matrix'' = Some (JObj M))
        \<and> map (\<lambda>(k, dflt). py_float pf (case map_of M k of Some v \<Rightarrow> v | None \<Rightarrow> JNum dflt))
              [(''a'', 1), (''b'', 0), (''c'', 0), (''d'', 1), (''tx'', 0), (''ty'', 0)]
            = map Inr [m_a, m_b, m_c, m_d, m_tx, m_ty]
        \<and> (map_of b ''color'' = None \<and> col = [] \<or> map_of b ''color'' = Some (JObj col))
        \<and> py_float pf (case map_of col ''alphaMultiplier'' of Some v \<Rightarrow> v | None \<Rightarrow> JNum 1)
            = Inr am"
  then have e: "effective_children shared (JObj b)
         (case map_of b ''children'' of Some v \<Rightarrow> v | None \<Rightarrow> JNull) fi = Inr (JArr chs)"
    using effective_children_hit [OF ref r] by blast
  have m: "map_of b ''matrix'' = None \<and> M = [] \<or> map_of b ''matrix'' = Some (JObj M)"
    using h by (elim conjE)
  have f: "map (\<lambda>(k, dflt). py_float pf (case map_of M k of Some v \<Rightarrow> v | None \<Rightarrow> JNum dflt))
              [(''a'', 1), (''b'', 0), (''c'', 0), (''d'', 1), (''tx'', 0), (''ty'', 0)]
            = map Inr [m_a, m_b, m_c, m_d, m_tx, m_ty]"
    using h by (elim conjE)
  have c: "map_of b ''color'' = None \<and> col = [] \<or> map_of b ''color'' = Some (JObj col)"
    using h by (elim conjE)
  have a: "py_float pf (case map_of col ''alphaMultiplier'' of Some v \<Rightarrow> v | None \<Rightarrow> JNum 1)
            = Inr am"
    using h by (elim conjE)
  have L: "local_matrix pf (JObj b) = Inr (m_a, m_b, m_c, m_d, m_tx, m_ty)"
    using m f by (rule local_matrix_read)
  have al: "local_alpha pf (JObj b) = Inr am"
    using local_alpha_read [OF c, of pf] a by simp
  show "compose_list pf shared (Suc depth) (JObj b) pw pa fi =
            ebind (emap (\<lambda>ch. compose_list pf shared depth ch
                                 (mul pw (m_a, m_b, m_c, m_d, m_tx, m_ty)) (am * pa) fi) chs)
              (\<lambda>outs. Inr ((case map_of b ''name'' of Some v \<Rightarrow> v | None \<Rightarrow> JStr [],
                             mul pw (m_a, m_b, m_c, m_d, m_tx, m_ty), am * pa) # concat outs))"
    by (rule compose_list_shared [OF e L al])
  show "walk shared (Suc depth) (JObj b) fi =
            ebind (sanitize_obj (case map_of b ''name'' of Some v \<Rightarrow> v | None \<Rightarrow> JStr [])) (\<lambda>n.
            ebind (emap (\<lambda>ch. walk shared depth ch fi) chs) (\<lambda>outs.
              Inr ((if n \<noteq> [] then [n] else []) @ concat outs)))"
    by (rule walk_shared [OF e])
next
  assume h: "map_of shared r = Some (JArr [JObj fa, JObj fb])
        \<and> map_of fa ''children'' = Some A \<and> map_of fb ''children'' = Some B"
  have a: "effective_children shared (JObj b) kids fi = Inr A" if "fi mod 2 = 0" for fi
    using h that by (intro effective_children_hit [OF ref r, where sa = "[JObj fa, JObj fb]" and fr = fa]) (simp_all flip: numeral_2_eq_2)
  have b: "effective_children shared (JObj b) kids fi = Inr B" if "fi mod 2 = 1" for fi
    using h that by (intro effective_children_hit [OF ref r, where sa = "[JObj fa, JObj fb]" and fr = fb]) (simp_all flip: numeral_2_eq_2)
  show "map (effective_children shared (JObj b) kids) [0, 1, 2, 3, 4]
          = [Inr A, Inr B, Inr A, Inr B, Inr A]"
    by (simp add: a b)
qed

theorem shared_animation_substitution_witness:
  "compose_list (\<lambda>s. None) blink_table (Suc 1) (JObj blinking_eye) (1, 0, 0, 1, 0, 0) 1 2 =
     Inr [(JStr ''eye'', (1, 0, 0, 1, 5, 0), 1 / 2), (JStr ''open'', (1, 0, 0, 1, 6, 0), 1 / 2)]
   \<and> walk blink_table (Suc 1) (JObj blinking_eye) 2 = Inr [''eye'', ''open'']
   \<and> map (effective_children blink_table (JObj blinking_eye) JNull) [0, 1, 2, 3, 4] =
       [Inr (JArr [blink_open]), Inr (JArr [blink_shut]), Inr (JArr [blink_open]),
        Inr (JArr [blink_shut]), Inr (JArr [blink_open])]"
proof -
  have h1: "map_of blinking_eye ''references_shared_animation'' = Some (JStr ''blink'')"
    by (simp add: blinking_eye_def)
  have h2: "''blink'' \<noteq> []" by simp
  have h3: "map_of blink_table ''blink''
              = Some (JArr [JObj [(''children'', JArr [blink_open])],
                            JObj [(''children'', JArr [blink_shut])]])
        \<and> [JObj [(''children'', JArr [blink_open])], JObj [(''children'', JArr [blink_shut])]] \<noteq> []
        \<and> [JObj [(''children'', JArr [blink_open])], JObj [(''children'', JArr [blink_shut])]]
            ! (2 mod length [JObj [(''children'', JArr [blink_open])],
                             JObj [(''children'', JArr [blink_shut])]])
          = JObj [(''children'', JArr [blink_open])]
        \<and> map_of [(''children'', JArr [blink_open])] ''children'' = Some (JArr [blink_open])
        \<and> (map_of blinking_eye ''matrix'' = None \<and> [(''tx'', JNum 5)] = []
             \<or> map_of blinking_eye ''matrix'' = Some (JObj [(''tx'', JNum 5)]))
        \<and> map (\<lambda>(k, dflt). py_float (\<lambda>s. None)
                   (case map_of [(''tx'', JNum 5)] k of Some v \<Rightarrow> v | None \<Rightarrow> JNum dflt))
              [(''a'', 1), (''b'', 0), (''c'', 0), (''d'', 1), (''tx'', 0), (''ty'', 0)]
            = map Inr [1, 0, 0, 1, 5, 0]
        \<and> (map_of blinking_eye ''color'' = None \<and> [(''alphaMultiplier'', JNum (1 / 2))] = []
             \<or> map_of blinking_eye ''color'' = Some (JObj [(''alphaMultiplier'', JNum (1 / 2))]))
        \<and> py_float (\<lambda>s. None)
            (case map_of [(''alphaMultiplier'', JNum (1 / 2))] ''alphaMultiplier'' of
               Some v \<Rightarrow> v | None \<Rightarrow> JNum 1) = Inr (1 / 2)"
    by (simp add: blink_table_def blinking_eye_def flip: numeral_2_eq_2)
  have h4: "map_of blink_table ''blink''
              = Some (JArr [JObj [(''children'', JArr [blink_open])],
                            JObj [(''children'', JArr [blink_shut])]])
        \<and> map_of [(''children'', JArr [blink_open])] ''children'' = Some (JArr [blink_open])
        \<and> map_of [(''children'', JArr [blink_shut])] ''children'' = Some (JArr [blink_shut])"
    by (simp add: blink_table_def)
  note t = shared_animation_substitution [OF h1 h2, where shared = blink_table
      and pf = "\<lambda>s. None" and depth = 1 and pw = "(1, 0, 0, 1, 0, 0)" and pa = 1 and fi = 2
      and kids = JNull]
  note t3 = t [THEN conjunct2, THEN conjunct2, THEN conjunct1, THEN mp, OF h3]
  note t4 = t [THEN conjunct2, THEN conjunct2, THEN conjunct2, THEN mp, OF h4]
  have c: "compose_list (\<lambda>s. None) blink_table (Suc 1) (JObj blinking_eye) (1, 0, 0, 1, 0, 0) 1 2 =
     Inr [(JStr ''eye'', (1, 0, 0, 1, 5, 0), 1 / 2), (JStr ''open'', (1, 0, 0, 1, 6, 0), 1 / 2)]"
    unfolding t3 [THEN conjunct1] by code_simp
  have w: "walk blink_table (Suc 1) (JObj blinking_eye) 2 = Inr [''eye'', ''open'']"
    unfolding t3 [THEN conjunct2] by code_simp
  from c w t4 show ?thesis by (intro conjI)
qed

section \<open>World matrix and world alpha\<close>

lemma compose_list_step:
  assumes "compose_list pf shared (Suc depth) bone pw pa fi = Inr out"
  shows "\<exists>name L am kids0 kids rest.
           py_get bone ''name'' (JStr []) = Inr name
         \<and> local_matrix pf bone = Inr L
         \<and> local_alpha pf bone = Inr am
         \<and> py_get bone ''children'' JNull = Inr kids0
         \<and> effective_children shared bone kids0 fi = Inr kids
         \<and> compose_children pf shared depth (case kids of JArr chs \<Rightarrow> chs | _ \<Rightarrow> [])
               (mul pw L) (am * pa) fi = Inr rest
         \<and> out = (name, mul pw L, am * pa) # rest"
proof -
  from assms obtain name L am kids0 kids where
    n: "py_get bone ''name'' (JStr []) = Inr name" and
    l: "local_matrix pf bone = Inr L" and
    a: "local_alpha pf bone = Inr am" and
    k0: "py_get bone ''children'' JNull = Inr kids0" and
    k: "effective_children shared bone kids0 fi = Inr kids" and
    r: "(case kids of
           JArr chs \<Rightarrow>
             ebind (compose_children pf shared depth chs (mul pw L) (am * pa) fi) (\<lambda>rest.
               Inr ((name, mul pw L, am * pa) # rest))
         | _ \<Rightarrow> Inr [(name, mul pw L, am * pa)]) = Inr out"
    by (auto simp: ebind_eq_Inr)
  from r obtain rest where
    "compose_children pf shared depth (case kids of JArr chs \<Rightarrow> chs | _ \<Rightarrow> [])
        (mul pw L) (am * pa) fi = Inr rest" "out = (name, mul pw L, am * pa) # rest"
    by (cases kids) (auto simp: ebind_eq_Inr)
  with n l a k0 k show ?thesis by blast
qed

lemma compose_children_concat:
  assumes "compose_children pf shared depth chs pw pa fi = Inr out"
  shows "\<exists>outs. length outs = length chs
           \<and> (\<forall>i < length chs. compose_list pf shared depth (chs ! i) pw pa fi = Inr (outs ! i))
           \<and> out = concat outs"
  using assms
proof (induction chs arbitrary: out)
  case Nil
  then show ?case by simp
next
  case (Cons ch chs)
  from Cons.prems obtain o1 o2 where
    o1: "compose_list pf shared depth ch pw pa fi = Inr o1" and
    o2: "compose_children pf shared depth chs pw pa fi = Inr o2" and
    out: "out = o1 @ o2"
    by (auto simp: ebind_eq_Inr)
  from Cons.IH [OF o2] obtain outs where
    outs: "length outs = length chs"
      "\<forall>i < length chs. compose_list pf shared depth (chs ! i) pw pa fi = Inr (outs ! i)"
      "o2 = concat outs"
    by blast
  have "\<forall>i < length (ch # chs).
          compose_list pf shared depth ((ch # chs) ! i) pw pa fi = Inr ((o1 # outs) ! i)"
    using o1 outs(2) by (auto simp: nth_Cons split: nat.splits)
  then show ?case using outs(1,3) out
    by (intro exI [of _ "o1 # outs"]) simp
qed

lemma record_instance_str:
  "record_instance fi (JStr nm, m, al) layer_frames =
     Inr (if sanitize nm \<in> fst ` set layer_frames
          then AList.map_entry (sanitize nm)
                 (AList.update fi \<lparr>slot_name = ''sprite/'' @ sanitize nm, slot_m = m, slot_alpha = al\<rparr>)
                 layer_frames
          else layer_frames)"
  by (simp add: record_instance_def)


subsection \<open>Recording the tuples of a frame\<close>

lemma find_append:
  "find P (xs @ ys) = (case find P xs of Some x \<Rightarrow> Some x | None \<Rightarrow> find P ys)"
  by (induction xs) auto

lemma last_named_Nil [simp]: "last_named key [] = None"
  by (simp add: last_named_def)

lemma last_named_append:
  "last_named key (xs @ ys) =
     (case last_named key ys of Some y \<Rightarrow> Some y | None \<Rightarrow> last_named key xs)"
  by (simp add: last_named_def find_append split: option.splits)

lemma last_named_single:
  "last_named key [x] = (if sanitize_obj (fst x) = Inr key then Some x else None)"
  by (simp add: last_named_def)

lemma upd_slot_Nil [simp]: "upd_slot key [] base = base"
  by (simp add: upd_slot_def)

lemma upd_slot_append: "upd_slot key (xs @ ys) base = upd_slot key ys (upd_slot key xs base)"
  by (simp add: upd_slot_def last_named_append split: option.splits)

lemma upd_slot_Cons: "upd_slot key (x # xs) base = upd_slot key xs (upd_slot key [x] base)"
  using upd_slot_append [of key "[x]" xs base] by simp

lemma map_fst_map_entry: "map fst (AList.map_entry k f al) = map fst al"
  by (induction al) auto

lemma record_instance_keys:
  assumes "record_instance fi inst lf = Inr lf'"
  shows "map fst lf' = map fst lf"
  using assms
  by (auto simp: record_instance_def ebind_eq_Inr map_fst_map_entry split: if_splits)

lemma record_instance_alt:
  "record_instance fi inst lf =
     ebind (sanitize_obj (fst inst)) (\<lambda>key.
       Inr (if key \<notin> fst ` set lf then lf
            else AList.map_entry key (AList.update fi (mk_slot key inst)) lf))"
  by (cases "sanitize_obj (fst inst)") (simp_all add: record_instance_def mk_slot_def)

lemma record_instance_slot:
  assumes "record_instance fi inst lf = Inr lf'" and "k \<in> fst ` set lf"
  shows "slot_at lf' k fj = (if fj = fi then upd_slot k [inst] (slot_at lf k fj) else slot_at lf k fj)"
proof -
  from assms(1) obtain key where key: "sanitize_obj (fst inst) = Inr key"
    and lf': "lf' = (if key \<notin> fst ` set lf then lf
                     else AList.map_entry key (AList.update fi (mk_slot key inst)) lf)"
    unfolding record_instance_alt ebind_eq_Inr by blast
  from assms(2) obtain fm where fm: "map_of lf k = Some fm"
    by (metis domD dom_map_of_conv_image_fst)
  show ?thesis
  proof (cases "key = k")
    case True
    then show ?thesis using key lf' assms(2) fm
      by (simp add: slot_at_def map_of_map_entry update_conv' upd_slot_def last_named_single)
  next
    case False
    then show ?thesis using key lf'
      by (auto simp: slot_at_def map_of_map_entry upd_slot_def last_named_single)
  qed
qed

lemma efold_record_instance:
  assumes "efold (record_instance fi) out lf = Inr lf'"
  shows "map fst lf' = map fst lf
     \<and> (k \<in> fst ` set lf \<longrightarrow>
          slot_at lf' k fj = (if fj = fi then upd_slot k out (slot_at lf k fj) else slot_at lf k fj))"
  using assms
proof (induction out arbitrary: lf)
  case Nil
  then show ?case by simp
next
  case (Cons x xs)
  from Cons.prems obtain lf1 where
    1: "record_instance fi x lf = Inr lf1" and 2: "efold (record_instance fi) xs lf1 = Inr lf'"
    by (auto simp: ebind_eq_Inr)
  have k1: "map fst lf1 = map fst lf" using 1 by (rule record_instance_keys)
  then have s1: "fst ` set lf1 = fst ` set lf" by (metis set_map)
  from Cons.IH [OF 2] have ih: "map fst lf' = map fst lf1"
    "k \<in> fst ` set lf1 \<Longrightarrow>
       slot_at lf' k fj = (if fj = fi then upd_slot k xs (slot_at lf1 k fj) else slot_at lf1 k fj)"
    by auto
  show ?case
  proof (intro conjI impI)
    show "map fst lf' = map fst lf" using ih(1) k1 by simp
    assume k: "k \<in> fst ` set lf"
    then have "k \<in> fst ` set lf1" using s1 by simp
    from ih(2) [OF this] record_instance_slot [OF 1 k, of fj]
    show "slot_at lf' k fj =
            (if fj = fi then upd_slot k (x # xs) (slot_at lf k fj) else slot_at lf k fj)"
      by (cases "fj = fi") (simp_all add: upd_slot_Cons [of k x xs])
  qed
qed


lemma record_bone_slot:
  assumes "record_bone pf shared depth fi bone lf = Inr lf'"
  shows "\<exists>out. compose_list pf shared depth bone mat_identity 1 fi = Inr out
     \<and> map fst lf' = map fst lf
     \<and> (k \<in> fst ` set lf \<longrightarrow>
          slot_at lf' k fj = (if fj = fi then upd_slot k out (slot_at lf k fj) else slot_at lf k fj))"
proof -
  from assms obtain out where
    1: "compose_list pf shared depth bone mat_identity 1 fi = Inr out" and
    2: "efold (record_instance fi) out lf = Inr lf'"
    by (auto simp: record_bone_def ebind_eq_Inr)
  from efold_record_instance [OF 2, of k fj] 1 show ?thesis by blast
qed

lemma efold_record_bone:
  assumes "efold (record_bone pf shared depth fi) bones lf = Inr lf'"
  shows "\<exists>outs. emap (\<lambda>bone. compose_list pf shared depth bone mat_identity 1 fi) bones = Inr outs
     \<and> map fst lf' = map fst lf
     \<and> (k \<in> fst ` set lf \<longrightarrow>
          slot_at lf' k fj =
            (if fj = fi then upd_slot k (concat outs) (slot_at lf k fj) else slot_at lf k fj))"
  using assms
proof (induction bones arbitrary: lf)
  case Nil
  then show ?case by simp
next
  case (Cons b bs)
  from Cons.prems obtain lf1 where
    1: "record_bone pf shared depth fi b lf = Inr lf1" and
    2: "efold (record_bone pf shared depth fi) bs lf1 = Inr lf'"
    by (auto simp: ebind_eq_Inr)
  from record_bone_slot [OF 1, of k fj] obtain out where
    o: "compose_list pf shared depth b mat_identity 1 fi = Inr out" and
    k1: "map fst lf1 = map fst lf" and
    s1: "k \<in> fst ` set lf \<longrightarrow>
          slot_at lf1 k fj = (if fj = fi then upd_slot k out (slot_at lf k fj) else slot_at lf k fj)"
    by blast
  from Cons.IH [OF 2] obtain outs where
    os: "emap (\<lambda>bone. compose_list pf shared depth bone mat_identity 1 fi) bs = Inr outs" and
    k2: "map fst lf' = map fst lf1" and
    s2: "k \<in> fst ` set lf1 \<longrightarrow>
          slot_at lf' k fj =
            (if fj = fi then upd_slot k (concat outs) (slot_at lf1 k fj) else slot_at lf1 k fj)"
    by blast
  have keys: "fst ` set lf1 = fst ` set lf" using k1 by (metis set_map)
  have e: "emap (\<lambda>bone. compose_list pf shared depth bone mat_identity 1 fi) (b # bs)
           = Inr (out # outs)"
    using o os by simp
  have "k \<in> fst ` set lf \<longrightarrow>
          slot_at lf' k fj =
            (if fj = fi then upd_slot k (concat (out # outs)) (slot_at lf k fj)
             else slot_at lf k fj)"
    using s1 s2 keys by (cases "fj = fi") (simp_all add: upd_slot_append)
  with e k1 k2 show ?case by (intro exI [of _ "out # outs"]) simp
qed

lemma record_frame_slot:
  assumes "record_frame pf shared depth (fi, fr) lf = Inr lf'"
  shows "\<exists>insts. frame_instances pf shared depth fi fr = Inr insts
     \<and> map fst lf' = map fst lf
     \<and> (k \<in> fst ` set lf \<longrightarrow>
          slot_at lf' k fj = (if fj = fi then upd_slot k insts (slot_at lf k fj) else slot_at lf k fj))"
proof -
  from assms obtain cs bones where
    1: "py_get fr ''children'' (JArr []) = Inr cs" and
    2: "py_iter cs = Inr bones" and
    3: "efold (record_bone pf shared depth fi) bones lf = Inr lf'"
    by (auto simp: record_frame_def ebind_eq_Inr)
  from efold_record_bone [OF 3, of k fj] obtain outs where
    o: "emap (\<lambda>bone. compose_list pf shared depth bone mat_identity 1 fi) bones = Inr outs" and
    r: "map fst lf' = map fst lf"
      "k \<in> fst ` set lf \<longrightarrow>
          slot_at lf' k fj =
            (if fj = fi then upd_slot k (concat outs) (slot_at lf k fj) else slot_at lf k fj)"
    by blast
  have "frame_instances pf shared depth fi fr = Inr (concat outs)"
    using 1 2 o by (simp add: frame_instances_def)
  with r show ?thesis by blast
qed

lemma efold_record_frame:
  assumes "efold (record_frame pf shared depth) (List.enumerate n frames) lf = Inr lf'"
  shows "map fst lf' = map fst lf
     \<and> (k \<in> fst ` set lf \<longrightarrow>
          (n \<le> fi \<and> fi < n + length frames \<longrightarrow>
             (\<exists>insts. frame_instances pf shared depth fi (frames ! (fi - n)) = Inr insts
                \<and> slot_at lf' k fi = upd_slot k insts (slot_at lf k fi)))
          \<and> (fi < n \<or> n + length frames \<le> fi \<longrightarrow> slot_at lf' k fi = slot_at lf k fi))"
  using assms
proof (induction frames arbitrary: n lf)
  case Nil
  then show ?case by auto
next
  case (Cons fr frs)
  from Cons.prems obtain lf1 where
    1: "record_frame pf shared depth (n, fr) lf = Inr lf1" and
    2: "efold (record_frame pf shared depth) (List.enumerate (Suc n) frs) lf1 = Inr lf'"
    by (auto simp: ebind_eq_Inr)
  from record_frame_slot [OF 1, of k fi] obtain insts where
    i: "frame_instances pf shared depth n fr = Inr insts" and
    k1: "map fst lf1 = map fst lf" and
    s1: "k \<in> fst ` set lf \<longrightarrow>
          slot_at lf1 k fi = (if fi = n then upd_slot k insts (slot_at lf k fi) else slot_at lf k fi)"
    by blast
  have keys: "fst ` set lf1 = fst ` set lf" using k1 by (metis set_map)
  from Cons.IH [OF 2] have
    k2: "map fst lf' = map fst lf1" and
    s2: "k \<in> fst ` set lf1 \<Longrightarrow> Suc n \<le> fi \<Longrightarrow> fi < Suc n + length frs \<Longrightarrow>
           \<exists>insts. frame_instances pf shared depth fi (frs ! (fi - Suc n)) = Inr insts
                \<and> slot_at lf' k fi = upd_slot k insts (slot_at lf1 k fi)" and
    s3: "k \<in> fst ` set lf1 \<Longrightarrow> fi < Suc n \<or> Suc n + length frs \<le> fi \<Longrightarrow>
           slot_at lf' k fi = slot_at lf1 k fi"
    by auto
  show ?case
  proof (intro conjI impI)
    show "map fst lf' = map fst lf" using k1 k2 by simp
  next
    assume k: "k \<in> fst ` set lf" and r: "n \<le> fi \<and> fi < n + length (fr # frs)"
    then have k': "k \<in> fst ` set lf1" using keys by simp
    show "\<exists>insts. frame_instances pf shared depth fi ((fr # frs) ! (fi - n)) = Inr insts
                \<and> slot_at lf' k fi = upd_slot k insts (slot_at lf k fi)"
    proof (cases "fi = n")
      case True
      then have "slot_at lf' k fi = slot_at lf1 k fi" using s3 [OF k'] by simp
      then show ?thesis using True i s1 k by auto
    next
      case False
      then have a: "Suc n \<le> fi" "fi < Suc n + length frs" using r by auto
      have "(fr # frs) ! (fi - n) = frs ! (fi - Suc n)" using a by (simp add: nth_Cons')
      moreover have "slot_at lf1 k fi = slot_at lf k fi" using s1 k False by simp
      ultimately show ?thesis using s2 [OF k' a] by simp
    qed
  next
    assume k: "k \<in> fst ` set lf" and r: "fi < n \<or> n + length (fr # frs) \<le> fi"
    then have k': "k \<in> fst ` set lf1" using keys by simp
    have "fi \<noteq> n" using r by auto
    then have "slot_at lf1 k fi = slot_at lf k fi" using s1 k by simp
    moreover have "slot_at lf' k fi = slot_at lf1 k fi" using s3 [OF k'] r by auto
    ultimately show "slot_at lf' k fi = slot_at lf k fi" by simp
  qed
qed

lemma build_tracks_instances:
  assumes "efold (record_frame pf shared depth) (List.enumerate n frames) lf = Inr lf'"
    and "i < length frames"
  shows "\<exists>insts. frame_instances pf shared depth (n + i) (frames ! i) = Inr insts"
  using assms
proof (induction frames arbitrary: n lf i)
  case Nil
  then show ?case by simp
next
  case (Cons fr frs)
  from Cons.prems(1) obtain lf1 where
    1: "record_frame pf shared depth (n, fr) lf = Inr lf1" and
    2: "efold (record_frame pf shared depth) (List.enumerate (Suc n) frs) lf1 = Inr lf'"
    by (auto simp: ebind_eq_Inr)
  show ?case
  proof (cases i)
    case 0
    then show ?thesis using record_frame_slot [OF 1, of "[]" 0] by auto
  next
    case (Suc j)
    then have "j < length frs" using Cons.prems(2) by simp
    from Cons.IH [OF 2 this] show ?thesis using Suc by simp
  qed
qed


lemma emap_nth:
  assumes "emap f xs = Inr ys"
  shows "length ys = length xs \<and> (\<forall>j < length xs. f (xs ! j) = Inr (ys ! j))"
  using assms
proof (induction xs arbitrary: ys)
  case Nil
  then show ?case by simp
next
  case (Cons x xs)
  from Cons.prems obtain y ys' where
    1: "f x = Inr y" and 2: "emap f xs = Inr ys'" and 3: "ys = y # ys'"
    by (auto simp: ebind_eq_Inr)
  from Cons.IH [OF 2] 1 3 show ?case by (auto simp: nth_Cons split: nat.splits)
qed

lemma last_named_None_iff:
  "last_named key insts = None \<longleftrightarrow> \<not> (\<exists>i \<in> set insts. sanitize_obj (fst i) = Inr key)"
  unfolding last_named_def find_None_iff set_rev by blast

lemma last_named_SomeD:
  "last_named key insts = Some i \<Longrightarrow> i \<in> set insts \<and> sanitize_obj (fst i) = Inr key"
  unfolding last_named_def by (drule find_SomeD) simp

lemma build_tracks_frame:
  assumes b: "build_tracks pf shared depth frames lf0 = Inr lf" and fi: "fi < length frames"
  shows "\<exists>cs bones outs.
             py_get (frames ! fi) ''children'' (JArr []) = Inr cs
           \<and> py_iter cs = Inr bones
           \<and> length outs = length bones
           \<and> (\<forall>j < length bones.
                 compose_list pf shared depth (bones ! j) (1, 0, 0, 1, 0, 0) 1 fi = Inr (outs ! j))
           \<and> (key \<notin> fst ` set lf0 \<longrightarrow> slot_at lf key fi = None)
           \<and> (key \<in> fst ` set lf0 \<and> slot_at lf0 key fi = None
                \<longrightarrow> (slot_at lf key fi \<noteq> None
                      \<longleftrightarrow> (\<exists>i \<in> set (concat outs). sanitize_obj (fst i) = Inr key))
                  \<and> (\<forall>s. slot_at lf key fi = Some s
                        \<longrightarrow> (\<exists>i \<in> set (concat outs). sanitize_obj (fst i) = Inr key
                               \<and> slot_m s = fst (snd i) \<and> slot_alpha s = snd (snd i))))"
proof -
  from b have e: "efold (record_frame pf shared depth) (List.enumerate 0 frames) lf0 = Inr lf"
    by (simp add: build_tracks_def)
  from build_tracks_instances [OF e fi] obtain insts where
    i: "frame_instances pf shared depth fi (frames ! fi) = Inr insts" by auto
  then obtain cs bones outs where
    1: "py_get (frames ! fi) ''children'' (JArr []) = Inr cs" and
    2: "py_iter cs = Inr bones" and
    3: "emap (\<lambda>bone. compose_list pf shared depth bone mat_identity 1 fi) bones = Inr outs" and
    4: "insts = concat outs"
    by (auto simp: frame_instances_def ebind_eq_Inr)
  from emap_nth [OF 3] have
    5: "length outs = length bones" and
    6: "\<forall>j < length bones.
          compose_list pf shared depth (bones ! j) (1, 0, 0, 1, 0, 0) 1 fi = Inr (outs ! j)"
    by (simp_all add: mat_identity_def)
  have keys: "map fst lf = map fst lf0" using efold_record_frame [OF e] by blast
  have 7: "key \<notin> fst ` set lf0 \<longrightarrow> slot_at lf key fi = None"
  proof
    assume "key \<notin> fst ` set lf0"
    then have "key \<notin> set (map fst lf)" unfolding keys by simp
    then have "map_of lf key = None" by (simp add: map_of_eq_None_iff)
    then show "slot_at lf key fi = None" by (simp add: slot_at_def)
  qed
  have 8: "key \<in> fst ` set lf0 \<and> slot_at lf0 key fi = None
                \<longrightarrow> (slot_at lf key fi \<noteq> None
                      \<longleftrightarrow> (\<exists>i \<in> set (concat outs). sanitize_obj (fst i) = Inr key))
                  \<and> (\<forall>s. slot_at lf key fi = Some s
                        \<longrightarrow> (\<exists>i \<in> set (concat outs). sanitize_obj (fst i) = Inr key
                               \<and> slot_m s = fst (snd i) \<and> slot_alpha s = snd (snd i)))"
  proof
    assume k: "key \<in> fst ` set lf0 \<and> slot_at lf0 key fi = None"
    from efold_record_frame [OF e, of key fi] k fi obtain insts' where
      "frame_instances pf shared depth fi (frames ! fi) = Inr insts'"
      "slot_at lf key fi = upd_slot key insts' (slot_at lf0 key fi)"
      by auto
    with i 4 k have s: "slot_at lf key fi = upd_slot key (concat outs) None" by simp
    show "(slot_at lf key fi \<noteq> None
                      \<longleftrightarrow> (\<exists>i \<in> set (concat outs). sanitize_obj (fst i) = Inr key))
                  \<and> (\<forall>s. slot_at lf key fi = Some s
                        \<longrightarrow> (\<exists>i \<in> set (concat outs). sanitize_obj (fst i) = Inr key
                               \<and> slot_m s = fst (snd i) \<and> slot_alpha s = snd (snd i)))"
    proof (cases "last_named key (concat outs)")
      case None
      then have "slot_at lf key fi = None" using s by (simp add: upd_slot_def)
      moreover have "\<not> (\<exists>i \<in> set (concat outs). sanitize_obj (fst i) = Inr key)"
        using None unfolding last_named_None_iff .
      ultimately show ?thesis by simp
    next
      case (Some i)
      then have v: "slot_at lf key fi = Some (mk_slot key i)" using s by (simp add: upd_slot_def)
      from last_named_SomeD [OF Some] have
        m: "i \<in> set (concat outs)" "sanitize_obj (fst i) = Inr key" by simp_all
      have ex: "\<exists>j \<in> set (concat outs). sanitize_obj (fst j) = Inr key
               \<and> slot_m (mk_slot key i) = fst (snd j) \<and> slot_alpha (mk_slot key i) = snd (snd j)"
        using m by (intro bexI [of _ i]) (simp_all add: mk_slot_def)
      have a: "slot_at lf key fi \<noteq> None" using v by simp
      have b: "\<exists>i \<in> set (concat outs). sanitize_obj (fst i) = Inr key"
        using m by (intro bexI [of _ i])
      have c: "\<forall>s. slot_at lf key fi = Some s
                        \<longrightarrow> (\<exists>i \<in> set (concat outs). sanitize_obj (fst i) = Inr key
                               \<and> slot_m s = fst (snd i) \<and> slot_alpha s = snd (snd i))"
      proof (intro allI impI)
        fix s assume "slot_at lf key fi = Some s"
        then have s: "s = mk_slot key i" using v by simp
        show "\<exists>i \<in> set (concat outs). sanitize_obj (fst i) = Inr key
                               \<and> slot_m s = fst (snd i) \<and> slot_alpha s = snd (snd i)"
          unfolding s by (rule ex)
      qed
      show ?thesis
      proof (intro conjI)
        show "slot_at lf key fi \<noteq> None
                \<longleftrightarrow> (\<exists>i \<in> set (concat outs). sanitize_obj (fst i) = Inr key)"
          by (rule iffI) (rule b, rule a)
      qed (rule c)
    qed
  qed
  from 1 2 5 6 7 8 show ?thesis by blast
qed


text \<open>
  C1, as amended. The composition \<^verbatim>\<open>mul\<close> has the six components of Parent composed
  with Local. When \<^verbatim>\<open>compose_list\<close> returns for a node, its result starts with the
  tuple of the node itself, whatever its name: the name, the parent matrix composed with
  the node's local matrix, and the node's alpha multiplier times the parent alpha; the
  rest is the concatenation, in order, of the results for the effective children, each
  computed with the node's world matrix and world alpha as parent state. When the tracks
  are built, every frame \<open>fi\<close> of the timeline is flattened: \<^verbatim>\<open>compose_list\<close> is run
  on each root bone of the frame with the identity matrix, alpha 1 and the frame index
  \<open>fi\<close>. A name that is no layer name has no slot. The slot of a layer at frame \<open>fi\<close>,
  empty before, is filled exactly when some tuple of the frame has the layer's name as
  its sanitized name, and it then holds the matrix and alpha of such a tuple.
\<close>

theorem flattener_world_state:
  "mul (P_a, P_b, P_c, P_d, P_tx, P_ty) (L_a, L_b, L_c, L_d, L_tx, L_ty) =
     (P_a * L_a + P_c * L_b, P_b * L_a + P_d * L_b,
      P_a * L_c + P_c * L_d, P_b * L_c + P_d * L_d,
      P_a * L_tx + P_c * L_ty + P_tx, P_b * L_tx + P_d * L_ty + P_ty)
   \<and> (compose_list pf shared (Suc depth) bone pw pa fi = Inr out
      \<longrightarrow> (\<exists>name L am kids0 kids rest.
             py_get bone ''name'' (JStr []) = Inr name
           \<and> local_matrix pf bone = Inr L
           \<and> local_alpha pf bone = Inr am
           \<and> py_get bone ''children'' JNull = Inr kids0
           \<and> effective_children shared bone kids0 fi = Inr kids
           \<and> compose_children pf shared depth (case kids of JArr chs \<Rightarrow> chs | _ \<Rightarrow> [])
                 (mul pw L) (am * pa) fi = Inr rest
           \<and> out = (name, mul pw L, am * pa) # rest))
   \<and> (compose_children pf shared depth chs pw pa fi = Inr outc
      \<longrightarrow> (\<exists>outs. length outs = length chs
             \<and> (\<forall>i < length chs. compose_list pf shared depth (chs ! i) pw pa fi = Inr (outs ! i))
             \<and> outc = concat outs))
   \<and> record_bone pf shared depth fi root_bone tracks =
       ebind (compose_list pf shared depth root_bone (1, 0, 0, 1, 0, 0) 1 fi) (\<lambda>flat.
         efold (record_instance fi) flat tracks)
   \<and> build_tracks pf shared depth frames tracks =
       efold (record_frame pf shared depth) (zip [0..<length frames] frames) tracks
   \<and> record_instance fi (JStr nm, m, al) tracks =
       Inr (if sanitize nm \<in> fst ` set tracks
            then AList.map_entry (sanitize nm)
                   (AList.update fi
                      \<lparr>slot_name = ''sprite/'' @ sanitize nm, slot_m = m, slot_alpha = al\<rparr>)
                   tracks
            else tracks)
   \<and> (build_tracks pf shared depth frames tracks = Inr tracks' \<and> fi < length frames
      \<longrightarrow> (\<exists>cs bones outs.
             py_get (frames ! fi) ''children'' (JArr []) = Inr cs
           \<and> py_iter cs = Inr bones
           \<and> length outs = length bones
           \<and> (\<forall>j < length bones.
                 compose_list pf shared depth (bones ! j) (1, 0, 0, 1, 0, 0) 1 fi = Inr (outs ! j))
           \<and> (key \<notin> fst ` set tracks \<longrightarrow> slot_at tracks' key fi = None)
           \<and> (key \<in> fst ` set tracks \<and> slot_at tracks key fi = None
                \<longrightarrow> (slot_at tracks' key fi \<noteq> None
                      \<longleftrightarrow> (\<exists>i \<in> set (concat outs). sanitize_obj (fst i) = Inr key))
                  \<and> (\<forall>s. slot_at tracks' key fi = Some s
                        \<longrightarrow> (\<exists>i \<in> set (concat outs). sanitize_obj (fst i) = Inr key
                               \<and> slot_m s = fst (snd i) \<and> slot_alpha s = snd (snd i))))))"
proof (intro conjI impI)
  show "mul (P_a, P_b, P_c, P_d, P_tx, P_ty) (L_a, L_b, L_c, L_d, L_tx, L_ty) =
     (P_a * L_a + P_c * L_b, P_b * L_a + P_d * L_b,
      P_a * L_c + P_c * L_d, P_b * L_c + P_d * L_d,
      P_a * L_tx + P_c * L_ty + P_tx, P_b * L_tx + P_d * L_ty + P_ty)"
    by simp
  show "record_bone pf shared depth fi root_bone tracks =
       ebind (compose_list pf shared depth root_bone (1, 0, 0, 1, 0, 0) 1 fi) (\<lambda>flat.
         efold (record_instance fi) flat tracks)"
    by (simp add: record_bone_def mat_identity_def)
  show "build_tracks pf shared depth frames tracks =
       efold (record_frame pf shared depth) (zip [0..<length frames] frames) tracks"
    by (simp add: build_tracks_def enumerate_eq_zip)
  show "record_instance fi (JStr nm, m, al) tracks =
       Inr (if sanitize nm \<in> fst ` set tracks
            then AList.map_entry (sanitize nm)
                   (AList.update fi
                      \<lparr>slot_name = ''sprite/'' @ sanitize nm, slot_m = m, slot_alpha = al\<rparr>)
                   tracks
            else tracks)"
    by (rule record_instance_str)
next
  assume "compose_list pf shared (Suc depth) bone pw pa fi = Inr out"
  then show "\<exists>name L am kids0 kids rest.
             py_get bone ''name'' (JStr []) = Inr name
           \<and> local_matrix pf bone = Inr L
           \<and> local_alpha pf bone = Inr am
           \<and> py_get bone ''children'' JNull = Inr kids0
           \<and> effective_children shared bone kids0 fi = Inr kids
           \<and> compose_children pf shared depth (case kids of JArr chs \<Rightarrow> chs | _ \<Rightarrow> [])
                 (mul pw L) (am * pa) fi = Inr rest
           \<and> out = (name, mul pw L, am * pa) # rest"
    by (rule compose_list_step)
next
  assume "compose_children pf shared depth chs pw pa fi = Inr outc"
  then show "\<exists>outs. length outs = length chs
             \<and> (\<forall>i < length chs. compose_list pf shared depth (chs ! i) pw pa fi = Inr (outs ! i))
             \<and> outc = concat outs"
    by (rule compose_children_concat)
next
  assume h: "build_tracks pf shared depth frames tracks = Inr tracks' \<and> fi < length frames"
  then have b: "build_tracks pf shared depth frames tracks = Inr tracks'"
    and f: "fi < length frames" by simp_all
  show "\<exists>cs bones outs.
             py_get (frames ! fi) ''children'' (JArr []) = Inr cs
           \<and> py_iter cs = Inr bones
           \<and> length outs = length bones
           \<and> (\<forall>j < length bones.
                 compose_list pf shared depth (bones ! j) (1, 0, 0, 1, 0, 0) 1 fi = Inr (outs ! j))
           \<and> (key \<notin> fst ` set tracks \<longrightarrow> slot_at tracks' key fi = None)
           \<and> (key \<in> fst ` set tracks \<and> slot_at tracks key fi = None
                \<longrightarrow> (slot_at tracks' key fi \<noteq> None
                      \<longleftrightarrow> (\<exists>i \<in> set (concat outs). sanitize_obj (fst i) = Inr key))
                  \<and> (\<forall>s. slot_at tracks' key fi = Some s
                        \<longrightarrow> (\<exists>i \<in> set (concat outs). sanitize_obj (fst i) = Inr key
                               \<and> slot_m s = fst (snd i) \<and> slot_alpha s = snd (snd i))))"
    by (rule build_tracks_frame [OF b f])
qed

theorem flattener_world_state_witness:
  "compose_list (\<lambda>s. None) [] (Suc 1) scene_head (1, 0, 0, 1, 0, 0) 1 0 =
     Inr [(JStr ''head'', (1, 0, 0, 1, 0, 0), 1), (JStr ''eye'', (1, 0, 0, 1, 5, 10), 1)]
   \<and> (\<exists>name L am kids0 kids rest.
         py_get scene_head ''name'' (JStr []) = Inr name
       \<and> local_matrix (\<lambda>s. None) scene_head = Inr L
       \<and> local_alpha (\<lambda>s. None) scene_head = Inr am
       \<and> py_get scene_head ''children'' JNull = Inr kids0
       \<and> effective_children [] scene_head kids0 0 = Inr kids
       \<and> compose_children (\<lambda>s. None) [] 1 (case kids of JArr chs \<Rightarrow> chs | _ \<Rightarrow> [])
             (mul (1, 0, 0, 1, 0, 0) L) (am * 1) 0 = Inr rest
       \<and> [(JStr ''head'', (1, 0, 0, 1, 0, 0), 1), (JStr ''eye'', (1, 0, 0, 1, 5, 10), 1)]
           = (name, mul (1, 0, 0, 1, 0, 0) L, am * 1) # rest)
   \<and> build_tracks (\<lambda>s. None) [] 3 frames_head [(''eye'', [])] =
       Inr [(''eye'', [(0, \<lparr>slot_name = ''sprite/eye'', slot_m = (1, 0, 0, 1, 5, 10),
                              slot_alpha = 1\<rparr>)])]
   \<and> (\<exists>outs i. compose_list (\<lambda>s. None) [] 3 scene_head (1, 0, 0, 1, 0, 0) 1 0 = Inr (outs ! 0)
         \<and> i \<in> set (concat outs) \<and> sanitize_obj (fst i) = Inr ''eye''
         \<and> fst (snd i) = (1, 0, 0, 1, 5, 10) \<and> snd (snd i) = 1)"
proof -
  have h: "compose_list (\<lambda>s. None) [] (Suc 1) scene_head (1, 0, 0, 1, 0, 0) 1 0 =
     Inr [(JStr ''head'', (1, 0, 0, 1, 0, 0), 1), (JStr ''eye'', (1, 0, 0, 1, 5, 10), 1)]"
    by code_simp
  note t = flattener_world_state [where pf = "\<lambda>s. None" and shared = "[]" and depth = 1
        and bone = scene_head and pw = "(1, 0, 0, 1, 0, 0)" and pa = 1 and fi = 0
        and out = "[(JStr ''head'', (1, 0, 0, 1, 0, 0), 1), (JStr ''eye'', (1, 0, 0, 1, 5, 10), 1)]",
        THEN conjunct2, THEN conjunct1, THEN mp, OF h]
  have b: "build_tracks (\<lambda>s. None) [] 3 frames_head [(''eye'', [])] =
       Inr [(''eye'', [(0, \<lparr>slot_name = ''sprite/eye'', slot_m = (1, 0, 0, 1, 5, 10),
                              slot_alpha = 1\<rparr>)])]"
    by code_simp
  have g: "build_tracks (\<lambda>s. None) [] 3 frames_head [(''eye'', [])] =
       Inr [(''eye'', [(0, \<lparr>slot_name = ''sprite/eye'', slot_m = (1, 0, 0, 1, 5, 10),
                              slot_alpha = 1\<rparr>)])]
     \<and> 0 < length frames_head"
    using b by (simp add: frames_head_def)
  note u = flattener_world_state [where pf = "\<lambda>s. None" and shared = "[]" and depth = 3
        and frames = frames_head and tracks = "[(''eye'', [])]" and fi = 0 and key = "''eye''"
        and tracks' = "[(''eye'', [(0, \<lparr>slot_name = ''sprite/eye'', slot_m = (1, 0, 0, 1, 5, 10),
                                         slot_alpha = 1\<rparr>)])]",
        THEN conjunct2, THEN conjunct2, THEN conjunct2, THEN conjunct2, THEN conjunct2,
        THEN conjunct2, THEN mp, OF g]
  from u obtain cs bones outs where
    1: "py_get (frames_head ! 0) ''children'' (JArr []) = Inr cs" and
    2: "py_iter cs = Inr bones" and
    3: "\<forall>j < length bones.
          compose_list (\<lambda>s. None) [] 3 (bones ! j) (1, 0, 0, 1, 0, 0) 1 0 = Inr (outs ! j)" and
    4: "''eye'' \<in> fst ` set [(''eye'', [] :: (nat \<times> slot) list)]
          \<and> slot_at [(''eye'', [])] ''eye'' 0 = None
        \<longrightarrow> (slot_at [(''eye'', [(0, \<lparr>slot_name = ''sprite/eye'', slot_m = (1, 0, 0, 1, 5, 10),
                                         slot_alpha = 1\<rparr>)])] ''eye'' 0 \<noteq> None
              \<longleftrightarrow> (\<exists>i \<in> set (concat outs). sanitize_obj (fst i) = Inr ''eye''))
          \<and> (\<forall>s. slot_at [(''eye'', [(0, \<lparr>slot_name = ''sprite/eye'',
                                            slot_m = (1, 0, 0, 1, 5, 10),
                                            slot_alpha = 1\<rparr>)])] ''eye'' 0 = Some s
                \<longrightarrow> (\<exists>i \<in> set (concat outs). sanitize_obj (fst i) = Inr ''eye''
                       \<and> slot_m s = fst (snd i) \<and> slot_alpha s = snd (snd i)))"
    by blast
  have bones: "bones = [scene_head]" using 1 2 by (auto simp: frames_head_def)
  have c: "compose_list (\<lambda>s. None) [] 3 scene_head (1, 0, 0, 1, 0, 0) 1 0 = Inr (outs ! 0)"
    using 3 bones by simp
  have k: "''eye'' \<in> fst ` set [(''eye'', [] :: (nat \<times> slot) list)]
          \<and> slot_at [(''eye'', [])] ''eye'' 0 = None"
    by (simp add: slot_at_def)
  have s: "slot_at [(''eye'', [(0, \<lparr>slot_name = ''sprite/eye'', slot_m = (1, 0, 0, 1, 5, 10),
                                     slot_alpha = 1\<rparr>)])] ''eye'' 0
           = Some \<lparr>slot_name = ''sprite/eye'', slot_m = (1, 0, 0, 1, 5, 10), slot_alpha = 1\<rparr>"
    by (simp add: slot_at_def)
  from 4 [THEN mp, OF k, THEN conjunct2, THEN spec, THEN mp, OF s] obtain i where
    i: "i \<in> set (concat outs)" "sanitize_obj (fst i) = Inr ''eye''" and
    v: "slot_m \<lparr>slot_name = ''sprite/eye'', slot_m = (1, 0, 0, 1, 5, 10), slot_alpha = 1\<rparr>
          = fst (snd i)"
       "slot_alpha \<lparr>slot_name = ''sprite/eye'', slot_m = (1, 0, 0, 1, 5, 10), slot_alpha = 1\<rparr>
          = snd (snd i)"
    by blast
  from v have "fst (snd i) = (1, 0, 0, 1, 5, 10)" "snd (snd i) = 1" by simp_all
  with c i have e: "\<exists>outs i. compose_list (\<lambda>s. None) [] 3 scene_head (1, 0, 0, 1, 0, 0) 1 0 = Inr (outs ! 0)
         \<and> i \<in> set (concat outs) \<and> sanitize_obj (fst i) = Inr ''eye''
         \<and> fst (snd i) = (1, 0, 0, 1, 5, 10) \<and> snd (snd i) = 1"
    by blast
  from h t b e show ?thesis by (intro conjI)
qed

text \<open>
  The claim as stated fails in both directions: \<^verbatim>\<open>compose_list\<close> returns a tuple for a
  node with the empty name, and a node named "ghost", for which no PNG exists, gets no
  instance: the document has no layer at all.
\<close>

theorem flattener_world_state_counterexample:
  "compose_list (\<lambda>s. None) [] 1 (JObj [(''name'', JStr [])]) (1, 0, 0, 1, 0, 0) 1 0 =
     Inr [(JStr [], (1, 0, 0, 1, 0, 0), 1)]
   \<and> main (\<lambda>s. None) 5 [JObj [(''children'', JArr [JObj [(''name'', JStr ''ghost'')]])]]
       [] [] [] 1 1 = Inr \<lparr>images = [], sprites = [], stage_layers = []\<rparr>"
  by code_simp

section \<open>Several instances of one piece in a frame\<close>

lemma per_child_lookup:
  assumes "per_child aliases ch per = Inr per'"
  shows "map_of per' n = (if child_name aliases ch = Some n then Some ch else map_of per n)"
proof -
  from assms obtain raw where
    1: "py_get ch ''name'' JNull = Inr raw" and
    r: "ebind (resolve_name aliases raw)
          (\<lambda>r. case r of None \<Rightarrow> Inr per | Some m \<Rightarrow> Inr (AList.update m ch per)) = Inr per'"
    unfolding per_child_def by (cases "py_get ch ''name'' JNull") simp_all
  from r obtain r where 2: "resolve_name aliases raw = Inr r" and
    3: "per' = (case r of None \<Rightarrow> per | Some m \<Rightarrow> AList.update m ch per)"
    by (cases "resolve_name aliases raw") (auto split: option.splits)
  have c: "child_name aliases ch = r" using 1 2 by (simp add: child_name_def)
  show ?thesis using 3 c by (cases r) (auto simp: update_conv')
qed

lemma last_child_Cons:
  "last_child aliases n (ch # chs) =
     (case last_child aliases n chs of
        Some c \<Rightarrow> Some c
      | None \<Rightarrow> if child_name aliases ch = Some n then Some ch else None)"
  by (simp add: last_child_def find_append split: option.splits)

lemma efold_per_child:
  assumes "efold (per_child aliases) chs per = Inr per'"
  shows "map_of per' n = (case last_child aliases n chs of None \<Rightarrow> map_of per n | Some c \<Rightarrow> Some c)"
  using assms
proof (induction chs arbitrary: per)
  case Nil
  then show ?case by (simp add: last_child_def)
next
  case (Cons ch chs)
  from Cons.prems obtain per1 where
    1: "per_child aliases ch per = Inr per1" and
    2: "efold (per_child aliases) chs per1 = Inr per'"
    by (auto simp: ebind_eq_Inr)
  show ?case
    using Cons.IH [OF 2] per_child_lookup [OF 1, of n]
    by (simp add: last_child_Cons split: option.splits)
qed

lemma frame_map_lookup:
  assumes "frame_map aliases f = Inr per"
  shows "\<exists>c0 chs. py_get f ''children'' JNull = Inr c0 \<and> py_iter (py_or c0 (JArr [])) = Inr chs
           \<and> map_of per n = last_child aliases n chs"
proof -
  from assms obtain c0 chs where
    1: "py_get f ''children'' JNull = Inr c0" and 2: "py_iter (py_or c0 (JArr [])) = Inr chs" and
    3: "efold (per_child aliases) chs [] = Inr per"
    by (auto simp: frame_map_def ebind_eq_Inr)
  from efold_per_child [OF 3, of n] have "map_of per n = last_child aliases n chs"
    by (simp split: option.splits)
  with 1 2 show ?thesis by blast
qed

lemma frame_maps_nth:
  assumes "frame_maps aliases frames = Inr fmap"
  shows "length fmap = length frames
     \<and> (\<forall>i < length frames. frame_map aliases (frames ! i) = Inr (fmap ! i))"
  using assms
proof (induction frames arbitrary: fmap)
  case Nil
  then show ?case by simp
next
  case (Cons f fs)
  from Cons.prems obtain per rest where
    1: "frame_map aliases f = Inr per" and 2: "frame_maps aliases fs = Inr rest" and
    3: "fmap = per # rest"
    by (auto simp: ebind_eq_Inr)
  from Cons.IH [OF 2] 1 3 show ?case by (auto simp: nth_Cons split: nat.splits)
qed

text \<open>
  C7. In bbone_to_xfl_symbols.py, after the tracks are built, the slot of a layer at
  frame \<open>fi\<close> holds the matrix and alpha of the last tuple, in traversal order of that
  frame, whose sanitized name is the layer's name; it is untouched when the frame has no
  such tuple. In bbone_to_xfl.py the dictionary of frame \<open>idx\<close> maps a catalogue name to
  the last child of the frame that resolves to this name. Neither the first occurrence
  nor a merge is kept.
\<close>

theorem last_occurrence_wins:
  "(build_tracks pf shared depth frames tracks0 = Inr tracks \<and> fi < length frames
      \<and> key \<in> fst ` set tracks0
    \<longrightarrow> (\<exists>insts. frame_instances pf shared depth fi (frames ! fi) = Inr insts
          \<and> slot_at tracks key fi =
              (case last_named key insts of
                 None \<Rightarrow> slot_at tracks0 key fi
               | Some i \<Rightarrow>
                   Some \<lparr>slot_name = ''sprite/'' @ key, slot_m = fst (snd i),
                         slot_alpha = snd (snd i)\<rparr>)))
   \<and> (frame_maps aliases frames = Inr fmap \<and> idx < length frames
    \<longrightarrow> (\<exists>c0 chs. py_get (frames ! idx) ''children'' JNull = Inr c0
          \<and> py_iter (py_or c0 (JArr [])) = Inr chs
          \<and> map_of (fmap ! idx) n = last_child aliases n chs))"
proof (intro conjI impI)
  assume h: "build_tracks pf shared depth frames tracks0 = Inr tracks \<and> fi < length frames
      \<and> key \<in> fst ` set tracks0"
  then have e: "efold (record_frame pf shared depth) (List.enumerate 0 frames) tracks0 = Inr tracks"
    by (simp add: build_tracks_def)
  from efold_record_frame [OF e, of key fi] h obtain insts where
    "frame_instances pf shared depth fi (frames ! fi) = Inr insts"
    "slot_at tracks key fi = upd_slot key insts (slot_at tracks0 key fi)"
    by auto
  then show "\<exists>insts. frame_instances pf shared depth fi (frames ! fi) = Inr insts
          \<and> slot_at tracks key fi =
              (case last_named key insts of
                 None \<Rightarrow> slot_at tracks0 key fi
               | Some i \<Rightarrow>
                   Some \<lparr>slot_name = ''sprite/'' @ key, slot_m = fst (snd i),
                         slot_alpha = snd (snd i)\<rparr>)"
    by (auto simp: upd_slot_def mk_slot_def split: option.splits)
next
  assume h: "frame_maps aliases frames = Inr fmap \<and> idx < length frames"
  then have "frame_map aliases (frames ! idx) = Inr (fmap ! idx)"
    using frame_maps_nth by blast
  then show "\<exists>c0 chs. py_get (frames ! idx) ''children'' JNull = Inr c0
          \<and> py_iter (py_or c0 (JArr [])) = Inr chs
          \<and> map_of (fmap ! idx) n = last_child aliases n chs"
    by (rule frame_map_lookup)
qed

theorem last_occurrence_wins_witness:
  "(build_tracks (\<lambda>s. None) [] 3 frames_a_twice [(''a'', [])] =
       Inr [(''a'', [(0, \<lparr>slot_name = ''sprite/a'', slot_m = (1, 0, 0, 1, 7, 0),
                            slot_alpha = 1\<rparr>)])]
     \<and> 0 < length frames_a_twice \<and> ''a'' \<in> fst ` set [(''a'', [] :: (nat \<times> slot) list)])
   \<and> (\<exists>insts. frame_instances (\<lambda>s. None) [] 3 0 (frames_a_twice ! 0) = Inr insts
          \<and> slot_at [(''a'', [(0, \<lparr>slot_name = ''sprite/a'', slot_m = (1, 0, 0, 1, 7, 0),
                                    slot_alpha = 1\<rparr>)])] ''a'' 0 =
              (case last_named ''a'' insts of
                 None \<Rightarrow> slot_at [(''a'', [])] ''a'' 0
               | Some i \<Rightarrow>
                   Some \<lparr>slot_name = ''sprite/'' @ ''a'', slot_m = fst (snd i),
                         slot_alpha = snd (snd i)\<rparr>))"
proof -
  have h: "build_tracks (\<lambda>s. None) [] 3 frames_a_twice [(''a'', [])] =
       Inr [(''a'', [(0, \<lparr>slot_name = ''sprite/a'', slot_m = (1, 0, 0, 1, 7, 0),
                            slot_alpha = 1\<rparr>)])]
     \<and> 0 < length frames_a_twice \<and> ''a'' \<in> fst ` set [(''a'', [] :: (nat \<times> slot) list)]"
    by code_simp
  note t = last_occurrence_wins [where pf = "\<lambda>s. None" and shared = "[]" and depth = 3
      and frames = frames_a_twice and ?tracks0.0 = "[(''a'', [])]" and fi = 0 and key = "''a''"
      and tracks = "[(''a'', [(0, \<lparr>slot_name = ''sprite/a'', slot_m = (1, 0, 0, 1, 7, 0),
                                    slot_alpha = 1\<rparr>)])]",
      THEN conjunct1, THEN mp, OF h]
  from h t show ?thesis by (rule conjI)
qed

section \<open>Missing and malformed fields\<close>

lemma float_field_alt:
  "float_field pf m k d = py_float pf (case m k of None \<Rightarrow> JNum d | Some v \<Rightarrow> v)"
  by (simp add: float_field_def split: option.splits)

lemma local_matrix_fields:
  assumes "map_of b ''matrix'' = Some (JObj M)"
  shows "local_matrix pf (JObj b) = float_fields pf (map_of M)"
  using assms
  by (cases "M = []") (simp_all add: local_matrix_def py_or_def float_fields_def float_field_alt)

lemma local_matrix_missing:
  assumes "map_of b ''matrix'' = None"
  shows "local_matrix pf (JObj b) = Inr (1, 0, 0, 1, 0, 0)"
  using assms by (simp add: local_matrix_def py_or_def)

lemma float_fields_default:
  assumes "k \<in> set matrix_keys" "m k = None"
  shows "float_fields pf (m(k \<mapsto> JNum (identity_value k))) = float_fields pf m"
  using assms
  by (auto simp: matrix_keys_def float_fields_def float_field_def identity_value_def)

lemma float_fields_malformed:
  assumes "k \<in> set matrix_keys" "m k = Some v" "py_float pf v = Inl e"
  shows "\<exists>e'. float_fields pf m = Inl e'"
proof -
  have f: "float_field pf m k d = Inl e" for d using assms by (simp add: float_field_def)
  show ?thesis
    using assms(1) f [of 0] f [of 1]
    by (auto simp: matrix_keys_def float_fields_def ebind_def split: sum.splits)
qed

lemma local_alpha_missing:
  "map_of b ''color'' = None \<Longrightarrow> local_alpha pf (JObj b) = Inr 1"
  by (simp add: local_alpha_def py_or_def)

lemma local_alpha_field:
  assumes "map_of b ''color'' = Some (JObj C)"
  shows "local_alpha pf (JObj b) = float_field pf (map_of C) ''alphaMultiplier'' 1"
proof (cases "C = []")
  case True
  then show ?thesis using assms by (simp add: local_alpha_def py_or_def float_field_def)
next
  case False
  then show ?thesis using assms
    by (simp add: local_alpha_def py_or_def float_field_def split: option.splits)
qed

lemma compose_list_matrix_error:
  assumes "local_matrix pf (JObj b) = Inl e"
  shows "compose_list pf shared (Suc depth) (JObj b) pw pa fi = Inl e"
  using assms by simp

lemma compose_list_alpha_error:
  assumes "local_alpha pf (JObj b) = Inl e"
  shows "\<exists>e'. compose_list pf shared (Suc depth) (JObj b) pw pa fi = Inl e'"
  using assms by (cases "local_matrix pf (JObj b)") simp_all

lemma compose_instance_matrix_fields:
  "compose_instance_matrix pf (JObj fm) plist_rec =
     Inr (safe_field pf (map_of fm) ''a'' 1 * safe_field pf (map_of plist_rec) ''scale_x'' 1,
          safe_field pf (map_of fm) ''b'' 0 * safe_field pf (map_of plist_rec) ''scale_x'' 1,
          safe_field pf (map_of fm) ''c'' 0 * safe_field pf (map_of plist_rec) ''scale_y'' 1,
          safe_field pf (map_of fm) ''d'' 1 * safe_field pf (map_of plist_rec) ''scale_y'' 1,
          safe_field pf (map_of fm) ''a'' 1 * safe_field pf (map_of plist_rec) ''origin_x'' 0
            + safe_field pf (map_of fm) ''c'' 0 * safe_field pf (map_of plist_rec) ''origin_y'' 0
            + safe_field pf (map_of fm) ''tx'' 0,
          safe_field pf (map_of fm) ''b'' 0 * safe_field pf (map_of plist_rec) ''origin_x'' 0
            + safe_field pf (map_of fm) ''d'' 1 * safe_field pf (map_of plist_rec) ''origin_y'' 0
            + safe_field pf (map_of fm) ''ty'' 0)"
  by (simp add: compose_instance_matrix_def safe_field_def Let_def split: option.splits)


lemma compose_instance_matrix_missing:
  assumes "k \<in> set matrix_keys" "map_of fm k = None"
  shows "compose_instance_matrix pf (JObj (AList.update k (JNum (identity_value k)) fm)) plist_rec
         = compose_instance_matrix pf (JObj fm) plist_rec"
  using assms
  by (auto simp: compose_instance_matrix_fields update_conv' safe_field_def float_d_def
      matrix_keys_def identity_value_def)

lemma compose_instance_matrix_malformed:
  assumes "k \<in> set [''b'', ''c'', ''tx'', ''ty'']" "py_float pf v = Inl e"
  shows "compose_instance_matrix pf (JObj (AList.update k v fm)) plist_rec
         = compose_instance_matrix pf (JObj (AList.delete k fm)) plist_rec"
  using assms
  by (auto simp: compose_instance_matrix_fields update_conv' delete_conv' safe_field_def float_d_def)

lemma local_matrix_default:
  assumes "map_of b ''matrix'' = Some (JObj M)" "k \<in> set matrix_keys" "map_of M k = None"
  shows "local_matrix pf (JObj b)
         = local_matrix pf (JObj [(''matrix'', JObj (AList.update k (JNum (identity_value k)) M))])"
proof -
  have "local_matrix pf (JObj [(''matrix'', JObj (AList.update k (JNum (identity_value k)) M))])
        = float_fields pf ((map_of M)(k \<mapsto> JNum (identity_value k)))"
    by (subst local_matrix_fields [where M = "AList.update k (JNum (identity_value k)) M"])
       (simp_all add: update_conv')
  then show ?thesis
    using float_fields_default [of k "map_of M" pf] assms(2,3) local_matrix_fields [OF assms(1)]
    by simp
qed

lemma color_of_empty: "color_of (JObj []) = Inr None"
  by (simp add: color_of_def)

lemma color_of_dict:
  assumes "C \<noteq> []"
  shows "\<exists>cr cg cb. color_of (JObj C) =
           Inr (Some (cr, cg, cb, case map_of C ''alphaMultiplier'' of Some v \<Rightarrow> v | None \<Rightarrow> JNum 1))"
  using assms by (simp add: color_of_def)

lemma piece_frame_color:
  assumes "piece_frame pf fmap pinfo g name idx = Inr fr"
    and "map_of (fmap ! idx) name = Some (JObj node)" and "node \<noteq> []"
  shows "\<exists>inst. frame_element fr = Some inst
           \<and> color_of (case map_of node ''color'' of Some c \<Rightarrow> c | None \<Rightarrow> JObj [])
               = Inr (inst_color inst)"
proof -
  from assms(1) have i: "idx < length fmap"
    by (auto simp: piece_frame_def split: if_splits)
  from assms i obtain fm m col where
    1: "color_of (case map_of node ''color'' of Some c \<Rightarrow> c | None \<Rightarrow> JObj []) = Inr col" and
    2: "fr = \<lparr>frame_index = idx, frame_duration = 1, frame_label = None,
               frame_element =
                 Some \<lparr>libraryItemName = ''image/'' @ name,
                       inst_matrix = Some (apply_global_scale g m), inst_color = col\<rparr>\<rparr>"
    by (auto simp: piece_frame_def ebind_eq_Inr)
  then show ?thesis by simp
qed

lemma piece_frame_alpha:
  assumes "piece_frame pf fmap pinfo g name idx = Inr fr"
    and "map_of (fmap ! idx) name = Some (JObj node)" and "node \<noteq> []"
  shows "\<exists>inst. frame_element fr = Some inst
            \<and> (map_of node ''color'' = None \<longrightarrow> inst_color inst = None)
            \<and> (map_of node ''color'' = Some (JObj C) \<and> C \<noteq> []
                  \<and> map_of C ''alphaMultiplier'' = None
               \<longrightarrow> (\<exists>cr cg cb. inst_color inst = Some (cr, cg, cb, JNum 1)))
            \<and> (map_of node ''color'' = Some (JObj C) \<and> map_of C ''alphaMultiplier'' = Some v
               \<longrightarrow> (\<exists>cr cg cb. inst_color inst = Some (cr, cg, cb, v)))"
proof -
  from piece_frame_color [OF assms] obtain inst where
    e: "frame_element fr = Some inst" and
    c: "color_of (case map_of node ''color'' of Some c \<Rightarrow> c | None \<Rightarrow> JObj [])
               = Inr (inst_color inst)"
    by blast
  have 1: "map_of node ''color'' = None \<longrightarrow> inst_color inst = None"
    using c by (auto simp: color_of_empty)
  have 2: "map_of node ''color'' = Some (JObj C) \<and> C \<noteq> [] \<and> map_of C ''alphaMultiplier'' = None
               \<longrightarrow> (\<exists>cr cg cb. inst_color inst = Some (cr, cg, cb, JNum 1))"
  proof
    assume h: "map_of node ''color'' = Some (JObj C) \<and> C \<noteq> [] \<and> map_of C ''alphaMultiplier'' = None"
    then have "C \<noteq> []" by simp
    from color_of_dict [OF this] h c
    show "\<exists>cr cg cb. inst_color inst = Some (cr, cg, cb, JNum 1)" by auto
  qed
  have 3: "map_of node ''color'' = Some (JObj C) \<and> map_of C ''alphaMultiplier'' = Some v
               \<longrightarrow> (\<exists>cr cg cb. inst_color inst = Some (cr, cg, cb, v))"
  proof
    assume h: "map_of node ''color'' = Some (JObj C) \<and> map_of C ''alphaMultiplier'' = Some v"
    then have "C \<noteq> []" by auto
    from color_of_dict [OF this] h c
    show "\<exists>cr cg cb. inst_color inst = Some (cr, cg, cb, v)" by auto
  qed
  show ?thesis by (intro exI [of _ inst] conjI) (rule e, rule 1, rule 2, rule 3)
qed


text \<open>
  C9, as amended. A missing field defaults to its identity value in both scripts: a node
  without a matrix has the identity as local matrix, a matrix without the key \<open>k\<close> reads
  as if \<open>k\<close> carried the identity value (1 for a and d, 0 for b, c, tx, ty), and a node
  without color or without alpha multiplier has alpha 1. A malformed field, one that
  \<^verbatim>\<open>float\<close> rejects, is not defaulted in \<^verbatim>\<open>compose_list\<close>: the call raises, for a matrix
  field as for the alpha multiplier. \<^verbatim>\<open>compose_instance_matrix\<close> never raises on a
  matrix that is a dictionary, and a malformed b, c, tx or ty reads there as if the key
  were missing. In bbone_to_xfl.py the instance of a node without color carries no color,
  the instance of a node whose color has no alpha multiplier carries the alpha multiplier
  1, and an alpha multiplier that is present is written as it is, malformed or not:
  \<^verbatim>\<open>_color\<close> does not raise on a dictionary.
\<close>

theorem field_defaults:
  "(map_of b ''matrix'' = None \<longrightarrow> local_matrix pf (JObj b) = Inr (1, 0, 0, 1, 0, 0))
   \<and> (map_of b ''matrix'' = Some (JObj M) \<and> k \<in> set matrix_keys \<and> map_of M k = None
      \<longrightarrow> local_matrix pf (JObj b)
          = local_matrix pf
              (JObj [(''matrix'', JObj (AList.update k (JNum (identity_value k)) M))]))
   \<and> (map_of b ''color'' = None
        \<or> map_of b ''color'' = Some (JObj C) \<and> map_of C ''alphaMultiplier'' = None
      \<longrightarrow> local_alpha pf (JObj b) = Inr 1)
   \<and> (map_of b ''matrix'' = Some (JObj M) \<and> k \<in> set matrix_keys \<and> map_of M k = Some v
        \<and> py_float pf v = Inl e
      \<longrightarrow> (\<exists>e'. compose_list pf shared (Suc depth) (JObj b) pw pa fi = Inl e'))
   \<and> (map_of b ''color'' = Some (JObj C) \<and> map_of C ''alphaMultiplier'' = Some v
        \<and> py_float pf v = Inl e
      \<longrightarrow> (\<exists>e'. compose_list pf shared (Suc depth) (JObj b) pw pa fi = Inl e'))
   \<and> (\<exists>m. compose_instance_matrix pf (JObj fm) plist_rec = Inr m)
   \<and> (k \<in> set matrix_keys \<and> map_of fm k = None
      \<longrightarrow> compose_instance_matrix pf (JObj fm) plist_rec
          = compose_instance_matrix pf (JObj (AList.update k (JNum (identity_value k)) fm))
              plist_rec)
   \<and> (k \<in> set [''b'', ''c'', ''tx'', ''ty''] \<and> py_float pf v = Inl e
      \<longrightarrow> compose_instance_matrix pf (JObj (AList.update k v fm)) plist_rec
          = compose_instance_matrix pf (JObj (AList.delete k fm)) plist_rec)
   \<and> (piece_frame pf fmap pinfo global_scale name idx = Inr fr
        \<and> map_of (fmap ! idx) name = Some (JObj node) \<and> node \<noteq> []
      \<longrightarrow> (\<exists>inst. frame_element fr = Some inst
            \<and> (map_of node ''color'' = None \<longrightarrow> inst_color inst = None)
            \<and> (map_of node ''color'' = Some (JObj C) \<and> C \<noteq> []
                  \<and> map_of C ''alphaMultiplier'' = None
               \<longrightarrow> (\<exists>cr cg cb. inst_color inst = Some (cr, cg, cb, JNum 1)))
            \<and> (map_of node ''color'' = Some (JObj C) \<and> map_of C ''alphaMultiplier'' = Some v
               \<longrightarrow> (\<exists>cr cg cb. inst_color inst = Some (cr, cg, cb, v)))))
   \<and> color_of (JObj []) = Inr None
   \<and> (C \<noteq> []
      \<longrightarrow> (\<exists>cr cg cb. color_of (JObj C) =
             Inr (Some (cr, cg, cb,
                        case map_of C ''alphaMultiplier'' of Some v \<Rightarrow> v | None \<Rightarrow> JNum 1))))"
proof (intro conjI impI)
  assume "map_of b ''matrix'' = None"
  then show "local_matrix pf (JObj b) = Inr (1, 0, 0, 1, 0, 0)" by (rule local_matrix_missing)
next
  assume "map_of b ''matrix'' = Some (JObj M) \<and> k \<in> set matrix_keys \<and> map_of M k = None"
  then show "local_matrix pf (JObj b)
          = local_matrix pf
              (JObj [(''matrix'', JObj (AList.update k (JNum (identity_value k)) M))])"
    using local_matrix_default by blast
next
  assume "map_of b ''color'' = None
        \<or> map_of b ''color'' = Some (JObj C) \<and> map_of C ''alphaMultiplier'' = None"
  then show "local_alpha pf (JObj b) = Inr 1"
    using local_alpha_missing [of b pf] local_alpha_field [of b C pf]
    by (auto simp: float_field_def)
next
  assume h: "map_of b ''matrix'' = Some (JObj M) \<and> k \<in> set matrix_keys \<and> map_of M k = Some v
        \<and> py_float pf v = Inl e"
  then obtain e' where "float_fields pf (map_of M) = Inl e'"
    using float_fields_malformed [of k "map_of M" v pf e] by blast
  then have "local_matrix pf (JObj b) = Inl e'" using h by (simp add: local_matrix_fields)
  then show "\<exists>e'. compose_list pf shared (Suc depth) (JObj b) pw pa fi = Inl e'"
    using compose_list_matrix_error by blast
next
  assume h: "map_of b ''color'' = Some (JObj C) \<and> map_of C ''alphaMultiplier'' = Some v
        \<and> py_float pf v = Inl e"
  then have "local_alpha pf (JObj b) = Inl e"
    by (simp add: local_alpha_field float_field_def)
  then show "\<exists>e'. compose_list pf shared (Suc depth) (JObj b) pw pa fi = Inl e'"
    by (rule compose_list_alpha_error)
next
  show "\<exists>m. compose_instance_matrix pf (JObj fm) plist_rec = Inr m"
    by (simp add: compose_instance_matrix_fields)
next
  assume "k \<in> set matrix_keys \<and> map_of fm k = None"
  then show "compose_instance_matrix pf (JObj fm) plist_rec
          = compose_instance_matrix pf (JObj (AList.update k (JNum (identity_value k)) fm))
              plist_rec"
    using compose_instance_matrix_missing [of k fm pf plist_rec] by simp
next
  assume "k \<in> set [''b'', ''c'', ''tx'', ''ty''] \<and> py_float pf v = Inl e"
  then show "compose_instance_matrix pf (JObj (AList.update k v fm)) plist_rec
          = compose_instance_matrix pf (JObj (AList.delete k fm)) plist_rec"
    using compose_instance_matrix_malformed by blast
next
  assume h: "piece_frame pf fmap pinfo global_scale name idx = Inr fr
        \<and> map_of (fmap ! idx) name = Some (JObj node) \<and> node \<noteq> []"
  then have 1: "piece_frame pf fmap pinfo global_scale name idx = Inr fr"
    and 2: "map_of (fmap ! idx) name = Some (JObj node)" and 3: "node \<noteq> []"
    by simp_all
  show "\<exists>inst. frame_element fr = Some inst
            \<and> (map_of node ''color'' = None \<longrightarrow> inst_color inst = None)
            \<and> (map_of node ''color'' = Some (JObj C) \<and> C \<noteq> []
                  \<and> map_of C ''alphaMultiplier'' = None
               \<longrightarrow> (\<exists>cr cg cb. inst_color inst = Some (cr, cg, cb, JNum 1)))
            \<and> (map_of node ''color'' = Some (JObj C) \<and> map_of C ''alphaMultiplier'' = Some v
               \<longrightarrow> (\<exists>cr cg cb. inst_color inst = Some (cr, cg, cb, v)))"
    by (rule piece_frame_alpha [OF 1 2 3])
next
  show "color_of (JObj []) = Inr None" by (rule color_of_empty)
next
  assume "C \<noteq> []"
  then show "\<exists>cr cg cb. color_of (JObj C) =
             Inr (Some (cr, cg, cb,
                        case map_of C ''alphaMultiplier'' of Some v \<Rightarrow> v | None \<Rightarrow> JNum 1))"
    by (rule color_of_dict)
qed

theorem field_defaults_witness:
  "(map_of [(''matrix'', JObj [(''a'', JNull)])] ''matrix'' = Some (JObj [(''a'', JNull)])
      \<and> ''a'' \<in> set matrix_keys \<and> map_of [(''a'', JNull)] ''a'' = Some JNull
      \<and> py_float (\<lambda>s. None) JNull = Inl TypeError)
   \<and> (\<exists>e'. compose_list (\<lambda>s. None) [] (Suc 0) (JObj [(''matrix'', JObj [(''a'', JNull)])])
             (1, 0, 0, 1, 0, 0) 1 0 = Inl e')"
proof -
  have h: "map_of [(''matrix'', JObj [(''a'', JNull)])] ''matrix'' = Some (JObj [(''a'', JNull)])
      \<and> ''a'' \<in> set matrix_keys \<and> map_of [(''a'', JNull)] ''a'' = Some JNull
      \<and> py_float (\<lambda>s. None) JNull = Inl TypeError"
    by (simp add: matrix_keys_def)
  note t = field_defaults [where b = "[(''matrix'', JObj [(''a'', JNull)])]"
      and M = "[(''a'', JNull)]" and k = "''a''" and v = JNull and pf = "\<lambda>s. None"
      and e = TypeError and shared = "[]" and depth = 0 and pw = "(1, 0, 0, 1, 0, 0)"
      and pa = 1 and fi = 0,
      THEN conjunct2, THEN conjunct2, THEN conjunct2, THEN conjunct1, THEN mp, OF h]
  from h t show ?thesis by (rule conjI)
qed

text \<open>
  The claim as stated fails: with the matrix field a set to null, \<^verbatim>\<open>compose_list\<close> raises
  TypeError; with an alpha multiplier that is not a number it raises ValueError;
  \<^verbatim>\<open>compose_instance_matrix\<close> reads the null a as 0, not as 1; and \<^verbatim>\<open>_color\<close> writes an
  alpha multiplier that is not a number as it is, not as 1.
\<close>

theorem field_defaults_counterexample:
  "compose_list (\<lambda>s. None) [] 1 (JObj [(''matrix'', JObj [(''a'', JNull)])])
       (1, 0, 0, 1, 0, 0) 1 0 = Inl TypeError
   \<and> compose_list (\<lambda>s. None) [] 1 (JObj [(''color'', JObj [(''alphaMultiplier'', JStr ''x'')])])
       (1, 0, 0, 1, 0, 0) 1 0 = Inl ValueError
   \<and> compose_instance_matrix (\<lambda>s. None) (JObj [(''a'', JNull)]) [] = Inr (0, 0, 0, 1, 0, 0)
   \<and> color_of (JObj [(''alphaMultiplier'', JStr ''x'')])
       = Inr (Some (JNum 1, JNum 1, JNum 1, JStr ''x''))"
  by code_simp

section \<open>The matrix of an instance\<close>

lemma piece_frame_element:
  assumes "piece_frame pf fmap pinfo g name idx = Inr fr" and "frame_element fr = Some inst"
  shows "\<exists>node fm m. map_of (fmap ! idx) name = Some node
           \<and> py_get node ''matrix'' (JObj []) = Inr fm
           \<and> compose_instance_matrix pf fm pinfo = Inr m
           \<and> inst_matrix inst = Some (apply_global_scale g m)"
proof -
  from assms(1) have i: "idx < length fmap"
    by (auto simp: piece_frame_def split: if_splits)
  show ?thesis
  proof (cases "map_of (fmap ! idx) name")
    case None
    then show ?thesis using assms i by (auto simp: piece_frame_def)
  next
    case (Some node)
    show ?thesis
    proof (cases "truthy node")
      case False
      then show ?thesis using assms i Some by (auto simp: piece_frame_def)
    next
      case True
      with assms(1) i Some obtain fm m c col where
        1: "py_get node ''matrix'' (JObj []) = Inr fm" and
        2: "compose_instance_matrix pf fm pinfo = Inr m" and
        3: "fr = \<lparr>frame_index = idx, frame_duration = 1, frame_label = None,
               frame_element =
                 Some \<lparr>libraryItemName = ''image/'' @ name,
                       inst_matrix = Some (apply_global_scale g m), inst_color = col\<rparr>\<rparr>"
        by (auto simp: piece_frame_def ebind_eq_Inr)
      from 3 assms(2) have "inst_matrix inst = Some (apply_global_scale g m)" by auto
      with 1 2 Some show ?thesis by blast
    qed
  qed
qed

lemma safe_field_absent:
  "safe_field pf (map_of []) k d = d"
  by (simp add: safe_field_def float_d_def)

lemma apply_global_scale_eq:
  "apply_global_scale g (A, B, C, D, TX, TY) =
     (if g \<noteq> 1 then (A * g, B * g, C * g, D * g, TX * g, TY * g) else (A, B, C, D, TX, TY))"
  by (simp add: apply_global_scale_def)

lemma stage_frame_matrix:
  assumes "map_of fmap fi = Some entry" "slot_m entry = (a, b, c, d, tx, ty)"
  shows "map_option inst_matrix (frame_element (stage_frame g_sx g_sy fmap fi))
         = Some (Some (a * g_sx, b * g_sx, c * g_sy, d * g_sy, tx * g_sx, ty * g_sy))"
  using assms by (simp add: stage_frame_def)


text \<open>
  C6, as amended. In bbone_to_xfl.py the matrix of every emitted instance is the frame
  matrix of the child composed with the translation by the origin and the scale of the
  catalogue entry: \<open>a' = a*sx\<close>, \<open>b' = b*sx\<close>, \<open>c' = c*sy\<close>, \<open>d' = d*sy\<close>,
  \<open>tx' = a*ox + c*oy + tx\<close>, \<open>ty' = b*ox + d*oy + ty\<close>, where every number is what
  \<^verbatim>\<open>_float\<close> reads, with origin 0 and scale 1 when the catalogue has no entry; after
  that, and only once, all six components are multiplied by the global scale \<open>g\<close> when
  \<open>g\<close> is not 1. In bbone_to_xfl_symbols.py the matrix of an instance is the recorded
  world matrix with a, b and tx multiplied by the stage factor \<open>g_sx\<close> and c, d and ty by
  \<open>g_sy\<close>; origin and scale are not composed into it.
\<close>

theorem emitted_matrix:
  "(let a = safe_field pf (map_of fm) ''a'' 1; b = safe_field pf (map_of fm) ''b'' 0;
        c = safe_field pf (map_of fm) ''c'' 0; d = safe_field pf (map_of fm) ''d'' 1;
        tx = safe_field pf (map_of fm) ''tx'' 0; ty = safe_field pf (map_of fm) ''ty'' 0;
        ox = safe_field pf (map_of plist_rec) ''origin_x'' 0;
        oy = safe_field pf (map_of plist_rec) ''origin_y'' 0;
        sx = safe_field pf (map_of plist_rec) ''scale_x'' 1;
        sy = safe_field pf (map_of plist_rec) ''scale_y'' 1
    in compose_instance_matrix pf (JObj fm) plist_rec =
         Inr (a * sx, b * sx, c * sy, d * sy, a * ox + c * oy + tx, b * ox + d * oy + ty))
   \<and> safe_field pf (map_of []) ''origin_x'' 0 = 0 \<and> safe_field pf (map_of []) ''origin_y'' 0 = 0
   \<and> safe_field pf (map_of []) ''scale_x'' 1 = 1 \<and> safe_field pf (map_of []) ''scale_y'' 1 = 1
   \<and> apply_global_scale g (A, B, C, D, TX, TY) =
       (if g \<noteq> 1 then (A * g, B * g, C * g, D * g, TX * g, TY * g) else (A, B, C, D, TX, TY))
   \<and> (piece_frame pf fmap pinfo g name idx = Inr fr \<and> frame_element fr = Some inst
      \<longrightarrow> (\<exists>node m0 m. map_of (fmap ! idx) name = Some node
             \<and> py_get node ''matrix'' (JObj []) = Inr m0
             \<and> compose_instance_matrix pf m0 pinfo = Inr m
             \<and> inst_matrix inst = Some (apply_global_scale g m)))
   \<and> piece_layer pf fmap plist g total_frames name =
       ebind (emap (piece_frame pf fmap (case map_of plist name of Some e \<Rightarrow> e | None \<Rightarrow> [])
                      g name) [0..<total_frames]) (\<lambda>frs.
         Inr \<lparr>layer_name = name, dom_frames = frs\<rparr>)
   \<and> (map_of track fi = Some entry \<and> slot_m entry = (wa, wb, wc, wd, wtx, wty)
      \<longrightarrow> map_option inst_matrix (frame_element (stage_frame g_sx g_sy track fi))
          = Some (Some (wa * g_sx, wb * g_sx, wc * g_sy, wd * g_sy, wtx * g_sx, wty * g_sy)))"
proof (intro conjI impI)
  show "let a = safe_field pf (map_of fm) ''a'' 1; b = safe_field pf (map_of fm) ''b'' 0;
        c = safe_field pf (map_of fm) ''c'' 0; d = safe_field pf (map_of fm) ''d'' 1;
        tx = safe_field pf (map_of fm) ''tx'' 0; ty = safe_field pf (map_of fm) ''ty'' 0;
        ox = safe_field pf (map_of plist_rec) ''origin_x'' 0;
        oy = safe_field pf (map_of plist_rec) ''origin_y'' 0;
        sx = safe_field pf (map_of plist_rec) ''scale_x'' 1;
        sy = safe_field pf (map_of plist_rec) ''scale_y'' 1
    in compose_instance_matrix pf (JObj fm) plist_rec =
         Inr (a * sx, b * sx, c * sy, d * sy, a * ox + c * oy + tx, b * ox + d * oy + ty)"
    unfolding Let_def by (rule compose_instance_matrix_fields)
  show "apply_global_scale g (A, B, C, D, TX, TY) =
       (if g \<noteq> 1 then (A * g, B * g, C * g, D * g, TX * g, TY * g) else (A, B, C, D, TX, TY))"
    by (rule apply_global_scale_eq)
  show "piece_layer pf fmap plist g total_frames name =
       ebind (emap (piece_frame pf fmap (case map_of plist name of Some e \<Rightarrow> e | None \<Rightarrow> [])
                      g name) [0..<total_frames]) (\<lambda>frs.
         Inr \<lparr>layer_name = name, dom_frames = frs\<rparr>)"
    by (simp add: piece_layer_def)
next
  assume "piece_frame pf fmap pinfo g name idx = Inr fr \<and> frame_element fr = Some inst"
  then show "\<exists>node m0 m. map_of (fmap ! idx) name = Some node
             \<and> py_get node ''matrix'' (JObj []) = Inr m0
             \<and> compose_instance_matrix pf m0 pinfo = Inr m
             \<and> inst_matrix inst = Some (apply_global_scale g m)"
    using piece_frame_element by blast
next
  assume "map_of track fi = Some entry \<and> slot_m entry = (wa, wb, wc, wd, wtx, wty)"
  then show "map_option inst_matrix (frame_element (stage_frame g_sx g_sy track fi))
          = Some (Some (wa * g_sx, wb * g_sx, wc * g_sy, wd * g_sy, wtx * g_sx, wty * g_sy))"
    using stage_frame_matrix by blast
qed (rule safe_field_absent)+

theorem emitted_matrix_witness:
  "(piece_frame (\<lambda>s. None) [[(''eye'', scene_eye)]] [] (1 / 2) ''eye'' 0 =
      Inr \<lparr>frame_index = 0, frame_duration = 1, frame_label = None,
           frame_element =
             Some \<lparr>libraryItemName = ''image/eye'',
                   inst_matrix = Some (1 / 2, 0, 0, 1 / 2, 5 / 2, 5), inst_color = None\<rparr>\<rparr>)
   \<and> (\<exists>node m0 m. map_of ([[(''eye'', scene_eye)]] ! 0) ''eye'' = Some node
         \<and> py_get node ''matrix'' (JObj []) = Inr m0
         \<and> compose_instance_matrix (\<lambda>s. None) m0 [] = Inr m
         \<and> Some (1 / 2, 0, 0, 1 / 2, 5 / 2, 5) = Some (apply_global_scale (1 / 2) m))"
proof -
  define inst where
    "inst = \<lparr>libraryItemName = ''image/eye'',
             inst_matrix = Some (1 / 2, 0, 0, 1 / 2, 5 / 2, 5 :: real), inst_color = None\<rparr>"
  define fr where
    "fr = \<lparr>frame_index = 0, frame_duration = 1, frame_label = None, frame_element = Some inst\<rparr>"
  have p: "piece_frame (\<lambda>s. None) [[(''eye'', scene_eye)]] [] (1 / 2) ''eye'' 0 = Inr fr"
    unfolding fr_def inst_def by code_simp
  have h: "piece_frame (\<lambda>s. None) [[(''eye'', scene_eye)]] [] (1 / 2) ''eye'' 0 = Inr fr
      \<and> frame_element fr = Some inst"
    using p by (simp add: fr_def)
  note t = emitted_matrix [where pf = "\<lambda>s. None" and fmap = "[[(''eye'', scene_eye)]]"
      and pinfo = "[]" and g = "1 / 2" and name = "''eye''" and idx = 0
      and fr = fr and inst = inst,
      THEN conjunct2, THEN conjunct2, THEN conjunct2, THEN conjunct2, THEN conjunct2,
      THEN conjunct2, THEN conjunct1, THEN mp, OF h]
  have i: "inst_matrix inst = Some (1 / 2, 0, 0, 1 / 2, 5 / 2, 5)" by (simp add: inst_def)
  from t have "\<exists>node m0 m. map_of ([[(''eye'', scene_eye)]] ! 0) ''eye'' = Some node
         \<and> py_get node ''matrix'' (JObj []) = Inr m0
         \<and> compose_instance_matrix (\<lambda>s. None) m0 [] = Inr m
         \<and> Some (1 / 2, 0, 0, 1 / 2, 5 / 2, 5) = Some (apply_global_scale (1 / 2) m)"
    unfolding i .
  with p show ?thesis unfolding fr_def inst_def by (rule conjI)
qed

text \<open>
  The claim as stated fails in bbone_to_xfl_symbols.py. With origin_x = 3 in the
  catalogue and stage factors 2 and 1, the instance of "eye" at local matrix
  (1, 0, 0, 1, 5, 10) gets the matrix (2, 0, 0, 1, 10, 10): the origin does not enter
  tx, and a and d are scaled by different factors.
\<close>

theorem emitted_matrix_counterexample:
  "main (\<lambda>s. None) 5 [JObj [(''children'', JArr [scene_eye])]] []
      [(''eye'', [(''origin_x'', JNum 3)])] [''eye''] 2 1 =
     Inr \<lparr>images = [\<lparr>img_stem = ''eye'', img_ox = 3, img_oy = 0, img_sx = 1, img_sy = 1\<rparr>],
          sprites = [(''eye'', ''image/eye'')],
          stage_layers =
            [\<lparr>layer_name = ''eye'',
              dom_frames =
                [\<lparr>frame_index = 0, frame_duration = 1, frame_label = None,
                  frame_element =
                    Some \<lparr>libraryItemName = ''sprite/eye'',
                          inst_matrix = Some (2, 0, 0, 1, 10, 10),
                          inst_color = None\<rparr>\<rparr>]\<rparr>]\<rparr>"
  by code_simp

section \<open>What main writes\<close>

lemma main_Inr:
  assumes "main pf depth frames shared plist png g_sx g_sy = Inr out"
  shows "\<exists>names0 names syms lf order.
       frames \<noteq> []
     \<and> efold (\<lambda>fr names.
                 ebind (py_get fr ''children'' (JArr [])) (\<lambda>cs. collect depth cs names))
               frames [] = Inr names0
     \<and> sorted_names (names0 @ map (\<lambda>e. JStr (fst e)) plist) = Inr names
     \<and> efold (image_for pf plist (build_png_index png)) names ([], []) = Inr syms
     \<and> build_tracks pf shared depth frames (init_tracks (snd syms)) = Inr lf
     \<and> dfs_draw_order shared depth frames = Inr order
     \<and> out = \<lparr>images = fst syms,
              sprites = map (\<lambda>e. (sanitize (fst e), snd e)) (snd syms),
              stage_layers =
                map (stage_layer g_sx g_sy lf (length frames))
                  (rev (bottom_to_top order (map fst lf)))\<rparr>"
proof -
  from assms have ne: "frames \<noteq> []" by (auto simp: main_def split: if_splits)
  with assms obtain names0 where
    c: "efold (\<lambda>fr names.
                 ebind (py_get fr ''children'' (JArr [])) (\<lambda>cs. collect depth cs names))
               frames [] = Inr names0" and
    r1: "ebind (sorted_names (names0 @ map (\<lambda>e. JStr (fst e)) plist)) (\<lambda>names.
        ebind (efold (image_for pf plist (build_png_index png)) names ([], [])) (\<lambda>syms.
        ebind (build_tracks pf shared depth frames (init_tracks (snd syms))) (\<lambda>layer_frames.
        ebind (dfs_draw_order shared depth frames) (\<lambda>order.
          Inr \<lparr>images = fst syms,
               sprites = map (\<lambda>e. (sanitize (fst e), snd e)) (snd syms),
               stage_layers =
                 map (stage_layer g_sx g_sy layer_frames (length frames))
                   (rev (bottom_to_top order (map fst layer_frames)))\<rparr>)))) = Inr out"
    unfolding main_def Let_def init_tracks_def
    by (cases "efold (\<lambda>fr names.
                 ebind (py_get fr ''children'' (JArr [])) (\<lambda>cs. collect depth cs names))
               frames []") simp_all
  from r1 obtain names where n: "sorted_names (names0 @ map (\<lambda>e. JStr (fst e)) plist) = Inr names"
    and r2: "ebind (efold (image_for pf plist (build_png_index png)) names ([], [])) (\<lambda>syms.
        ebind (build_tracks pf shared depth frames (init_tracks (snd syms))) (\<lambda>layer_frames.
        ebind (dfs_draw_order shared depth frames) (\<lambda>order.
          Inr \<lparr>images = fst syms,
               sprites = map (\<lambda>e. (sanitize (fst e), snd e)) (snd syms),
               stage_layers =
                 map (stage_layer g_sx g_sy layer_frames (length frames))
                   (rev (bottom_to_top order (map fst layer_frames)))\<rparr>))) = Inr out"
    by (cases "sorted_names (names0 @ map (\<lambda>e. JStr (fst e)) plist)") simp_all
  from r2 obtain syms where s: "efold (image_for pf plist (build_png_index png)) names ([], []) = Inr syms"
    and r3: "ebind (build_tracks pf shared depth frames (init_tracks (snd syms))) (\<lambda>layer_frames.
        ebind (dfs_draw_order shared depth frames) (\<lambda>order.
          Inr \<lparr>images = fst syms,
               sprites = map (\<lambda>e. (sanitize (fst e), snd e)) (snd syms),
               stage_layers =
                 map (stage_layer g_sx g_sy layer_frames (length frames))
                   (rev (bottom_to_top order (map fst layer_frames)))\<rparr>)) = Inr out"
    by (cases "efold (image_for pf plist (build_png_index png)) names ([], [])") simp_all
  from r3 obtain lf where l: "build_tracks pf shared depth frames (init_tracks (snd syms)) = Inr lf"
    and r4: "ebind (dfs_draw_order shared depth frames) (\<lambda>order.
          Inr \<lparr>images = fst syms,
               sprites = map (\<lambda>e. (sanitize (fst e), snd e)) (snd syms),
               stage_layers =
                 map (stage_layer g_sx g_sy lf (length frames))
                   (rev (bottom_to_top order (map fst lf)))\<rparr>) = Inr out"
    by (cases "build_tracks pf shared depth frames (init_tracks (snd syms))") simp_all
  from r4 obtain order where o: "dfs_draw_order shared depth frames = Inr order"
    and r5: "out = \<lparr>images = fst syms,
               sprites = map (\<lambda>e. (sanitize (fst e), snd e)) (snd syms),
               stage_layers =
                 map (stage_layer g_sx g_sy lf (length frames))
                   (rev (bottom_to_top order (map fst lf)))\<rparr>"
    by (cases "dfs_draw_order shared depth frames") auto
  from ne c n s l o r5 show ?thesis by blast
qed


lemma image_for_cases:
  assumes "image_for pf plist idx n acc = Inr acc'"
  shows "(find_png_for_name n idx = None \<and> acc' = acc)
       \<or> (\<exists>stem im. find_png_for_name n idx = Some stem \<and> img_stem im = stem
             \<and> fst acc' = fst acc @ [im]
             \<and> snd acc' = AList.update n (''image/'' @ stem) (snd acc))"
proof (cases "find_png_for_name n idx")
  case None
  then show ?thesis using assms by (simp add: image_for_def)
next
  case (Some stem)
  then obtain ox oy sx sy where
    "acc' = (fst acc @ [\<lparr>img_stem = stem, img_ox = ox, img_oy = oy, img_sx = sx, img_sy = sy\<rparr>],
             AList.update n (''image/'' @ stem) (snd acc))"
    using assms by (auto simp: image_for_def Let_def ebind_eq_Inr)
  then show ?thesis using Some by auto
qed

lemma efold_image_for_keys:
  assumes "efold (image_for pf plist idx) names acc = Inr acc'"
  shows "fst ` set (snd acc') = fst ` set (snd acc) \<union> {n \<in> set names. find_png_for_name n idx \<noteq> None}"
  using assms
proof (induction names arbitrary: acc)
  case Nil
  then show ?case by simp
next
  case (Cons n ns)
  from Cons.prems obtain acc1 where
    1: "image_for pf plist idx n acc = Inr acc1" and
    2: "efold (image_for pf plist idx) ns acc1 = Inr acc'"
    by (auto simp: ebind_eq_Inr)
  have "fst ` set (snd acc1) = fst ` set (snd acc) \<union> {m. m = n \<and> find_png_for_name n idx \<noteq> None}"
  proof (cases "find_png_for_name n idx")
    case None
    then show ?thesis using image_for_cases [OF 1] by auto
  next
    case (Some stem)
    then have "snd acc1 = AList.update n (''image/'' @ stem) (snd acc)"
      using image_for_cases [OF 1] by auto
    then have "fst ` set (snd acc1) = {n} \<union> fst ` set (snd acc)"
      by (simp only: dom_update)
    then show ?thesis using Some by auto
  qed
  with Cons.IH [OF 2] show ?case by auto
qed

lemma efold_image_for_stems:
  assumes "efold (image_for pf plist idx) names acc = Inr acc'"
  shows "img_stem ` set (fst acc') =
           img_stem ` set (fst acc) \<union> {stem. \<exists>n \<in> set names. find_png_for_name n idx = Some stem}"
  using assms
proof (induction names arbitrary: acc)
  case Nil
  then show ?case by simp
next
  case (Cons n ns)
  from Cons.prems obtain acc1 where
    1: "image_for pf plist idx n acc = Inr acc1" and
    2: "efold (image_for pf plist idx) ns acc1 = Inr acc'"
    by (auto simp: ebind_eq_Inr)
  from image_for_cases [OF 1]
  have "img_stem ` set (fst acc1) =
          img_stem ` set (fst acc) \<union> {stem. find_png_for_name n idx = Some stem}"
    by auto
  with Cons.IH [OF 2] show ?case by auto
qed

lemma fold_update_keys:
  "fst ` set (fold (\<lambda>n. AList.update (f n) v) ns al) = fst ` set al \<union> f ` set ns"
  by (induction ns arbitrary: al) (auto simp: dom_update)

lemma init_tracks_keys: "fst ` set (init_tracks n2i) = sanitize ` fst ` set n2i"
  by (simp add: init_tracks_def fold_update_keys)

lemma build_tracks_keys:
  assumes "build_tracks pf shared depth frames lf0 = Inr lf"
  shows "map fst lf = map fst lf0"
  using assms efold_record_frame [of pf shared depth 0 frames lf0 lf]
  by (simp add: build_tracks_def)

lemma set_bottom_to_top: "set (bottom_to_top order keys) = set keys"
  by (auto simp: bottom_to_top_def)

lemma layer_name_stage_layer [simp]: "layer_name (stage_layer g_sx g_sy lf n lname) = lname"
  by (simp add: stage_layer_def)

lemma main_layers:
  assumes "main pf depth frames shared plist png g_sx g_sy = Inr out"
  shows "\<exists>names syms lf order.
       efold (image_for pf plist (build_png_index png)) names ([], []) = Inr syms
     \<and> images out = fst syms
     \<and> build_tracks pf shared depth frames (init_tracks (snd syms)) = Inr lf
     \<and> map fst lf = map fst (init_tracks (snd syms))
     \<and> dfs_draw_order shared depth frames = Inr order
     \<and> map layer_name (stage_layers out) = rev (bottom_to_top order (map fst lf))"
proof -
  from main_Inr [OF assms] obtain names0 names syms lf order where
    s: "efold (image_for pf plist (build_png_index png)) names ([], []) = Inr syms" and
    l: "build_tracks pf shared depth frames (init_tracks (snd syms)) = Inr lf" and
    o: "dfs_draw_order shared depth frames = Inr order" and
    out: "out = \<lparr>images = fst syms,
              sprites = map (\<lambda>e. (sanitize (fst e), snd e)) (snd syms),
              stage_layers =
                map (stage_layer g_sx g_sy lf (length frames))
                  (rev (bottom_to_top order (map fst lf)))\<rparr>"
    by blast
  have "map layer_name (stage_layers out) = rev (bottom_to_top order (map fst lf))"
    unfolding out by (simp add: comp_def)
  moreover have "images out = fst syms" unfolding out by simp
  ultimately show ?thesis using s l o build_tracks_keys [OF l] by blast
qed

lemma main_only_with_png:
  assumes "main pf depth frames shared plist png g_sx g_sy = Inr out"
  shows "(\<forall>l \<in> set (stage_layers out).
            \<exists>n. layer_name l = sanitize n \<and> find_png_for_name n (build_png_index png) \<noteq> None)
       \<and> (\<forall>im \<in> set (images out).
            \<exists>n. find_png_for_name n (build_png_index png) = Some (img_stem im))"
proof -
  from main_layers [OF assms] obtain names syms lf order where
    s: "efold (image_for pf plist (build_png_index png)) names ([], []) = Inr syms" and
    im: "images out = fst syms" and
    "build_tracks pf shared depth frames (init_tracks (snd syms)) = Inr lf" and
    k: "map fst lf = map fst (init_tracks (snd syms))" and
    "dfs_draw_order shared depth frames = Inr order" and
    ln: "map layer_name (stage_layers out) = rev (bottom_to_top order (map fst lf))"
    by blast
  have keys: "fst ` set (snd syms) = {n \<in> set names. find_png_for_name n (build_png_index png) \<noteq> None}"
    using efold_image_for_keys [OF s] by simp
  have stems: "img_stem ` set (fst syms)
        = {stem. \<exists>n \<in> set names. find_png_for_name n (build_png_index png) = Some stem}"
    using efold_image_for_stems [OF s] by simp
  have "set (rev (bottom_to_top order (map fst lf))) = set (map fst (init_tracks (snd syms)))"
    unfolding k [symmetric] by (simp only: set_rev set_bottom_to_top)
  also have "\<dots> = sanitize ` fst ` set (snd syms)"
    by (simp only: set_map init_tracks_keys)
  finally have a: "set (map layer_name (stage_layers out))
        = sanitize ` {n \<in> set names. find_png_for_name n (build_png_index png) \<noteq> None}"
    unfolding ln keys .
  show ?thesis
  proof (intro conjI ballI)
    fix l assume "l \<in> set (stage_layers out)"
    then have "layer_name l \<in> set (map layer_name (stage_layers out))" by simp
    then have "layer_name l \<in> sanitize ` {n \<in> set names. find_png_for_name n (build_png_index png) \<noteq> None}"
      unfolding a .
    then obtain n where "layer_name l = sanitize n"
      "find_png_for_name n (build_png_index png) \<noteq> None"
      by (elim imageE) simp
    then show "\<exists>n. layer_name l = sanitize n \<and> find_png_for_name n (build_png_index png) \<noteq> None"
      by (intro exI [of _ n] conjI)
  next
    fix i assume "i \<in> set (images out)"
    then have "img_stem i \<in> img_stem ` set (fst syms)" unfolding im by (rule imageI)
    then have "img_stem i \<in> {stem. \<exists>n \<in> set names. find_png_for_name n (build_png_index png) = Some stem}"
      unfolding stems .
    then obtain n where "find_png_for_name n (build_png_index png) = Some (img_stem i)"
      by (elim CollectE bexE)
    then show "\<exists>n. find_png_for_name n (build_png_index png) = Some (img_stem i)"
      by (rule exI)
  qed
qed


section \<open>Bitmaps for piece names\<close>

lemma find_png_fallback:
  assumes "map_of idx name = None" "map_of idx (sanitize name) = None"
    "map_of idx (py_lower name) = None"
  shows "find_png_for_name name idx = map_option snd (find (loosely_matches name) idx)"
proof -
  have "(\<lambda>kp. sublist (py_lower name) (py_lower (fst kp))
             \<or> sublist (py_lower (fst kp)) (py_lower name)) = loosely_matches name"
    by (simp add: fun_eq_iff loosely_matches_def)
  then show ?thesis using assms by (simp add: find_png_for_name_def)
qed

lemma find_png_first:
  assumes "map_of idx name = None" "map_of idx (sanitize name) = None"
    "map_of idx (py_lower name) = None"
  shows "find_png_for_name name idx = Some p \<longleftrightarrow>
           (\<exists>i < length idx. loosely_matches name (idx ! i) \<and> p = snd (idx ! i)
              \<and> (\<forall>j < i. \<not> loosely_matches name (idx ! j)))"
proof -
  have "find_png_for_name name idx = Some p \<longleftrightarrow>
          (\<exists>kp. find (loosely_matches name) idx = Some kp \<and> p = snd kp)"
    unfolding find_png_fallback [OF assms] by auto
  also have "\<dots> \<longleftrightarrow> (\<exists>i < length idx. loosely_matches name (idx ! i) \<and> p = snd (idx ! i)
              \<and> (\<forall>j < i. \<not> loosely_matches name (idx ! j)))"
    unfolding find_Some_iff by blast
  finally show ?thesis .
qed

lemma two_names_one_png:
  "''arm'' \<noteq> ''left'' \<and> ''left_arm_01'' \<noteq> ''arm'' \<and> ''left_arm_01'' \<noteq> ''left''
   \<and> find_png_for_name ''arm'' (build_png_index [''left_arm_01'']) = Some ''left_arm_01''
   \<and> find_png_for_name ''left'' (build_png_index [''left_arm_01'']) = Some ''left_arm_01''"
  by code_simp

text \<open>
  C10. When a piece name is no key of the index, and neither its sanitized nor its
  lowered form is, \<^verbatim>\<open>find_png_for_name\<close> falls back to containment: it returns the PNG
  of the first key of the index, in its order, whose lowered form contains the lowered
  name or is contained in it. So a name can bind to a bitmap whose file name merely
  contains it, and two distinct names can resolve to the same bitmap. Every stage layer
  and every image symbol that \<^verbatim>\<open>main\<close> writes belongs to a name for which this lookup
  found a PNG.
\<close>

theorem png_resolution:
  "(map_of idx name = None \<and> map_of idx (sanitize name) = None
      \<and> map_of idx (py_lower name) = None
    \<longrightarrow> find_png_for_name name idx = map_option snd (find (loosely_matches name) idx)
      \<and> (find_png_for_name name idx = Some p \<longleftrightarrow>
           (\<exists>i < length idx. loosely_matches name (idx ! i) \<and> p = snd (idx ! i)
              \<and> (\<forall>j < i. \<not> loosely_matches name (idx ! j)))))
   \<and> (\<exists>n1 n2 files stem. n1 \<noteq> n2 \<and> stem \<noteq> n1 \<and> stem \<noteq> n2
        \<and> find_png_for_name n1 (build_png_index files) = Some stem
        \<and> find_png_for_name n2 (build_png_index files) = Some stem)
   \<and> (main pf depth frames shared plist png g_sx g_sy = Inr out
    \<longrightarrow> (\<forall>l \<in> set (stage_layers out).
            \<exists>n. layer_name l = sanitize n \<and> find_png_for_name n (build_png_index png) \<noteq> None)
      \<and> (\<forall>im \<in> set (images out).
            \<exists>n. find_png_for_name n (build_png_index png) = Some (img_stem im)))"
proof (intro conjI impI)
  assume h: "map_of idx name = None \<and> map_of idx (sanitize name) = None
      \<and> map_of idx (py_lower name) = None"
  then show "find_png_for_name name idx = map_option snd (find (loosely_matches name) idx)"
    using find_png_fallback by blast
  from h show "find_png_for_name name idx = Some p \<longleftrightarrow>
           (\<exists>i < length idx. loosely_matches name (idx ! i) \<and> p = snd (idx ! i)
              \<and> (\<forall>j < i. \<not> loosely_matches name (idx ! j)))"
    by (intro find_png_first) simp_all
next
  show "\<exists>n1 n2 files stem. n1 \<noteq> n2 \<and> stem \<noteq> n1 \<and> stem \<noteq> n2
        \<and> find_png_for_name n1 (build_png_index files) = Some stem
        \<and> find_png_for_name n2 (build_png_index files) = Some stem"
    using two_names_one_png
    by (intro exI [of _ "''arm''"] exI [of _ "''left''"] exI [of _ "[''left_arm_01'']"]
        exI [of _ "''left_arm_01''"]) simp
next
  assume m: "main pf depth frames shared plist png g_sx g_sy = Inr out"
  show "\<forall>l \<in> set (stage_layers out).
            \<exists>n. layer_name l = sanitize n \<and> find_png_for_name n (build_png_index png) \<noteq> None"
    using main_only_with_png [OF m] by (rule conjunct1)
  show "\<forall>im \<in> set (images out).
            \<exists>n. find_png_for_name n (build_png_index png) = Some (img_stem im)"
    using main_only_with_png [OF m] by (rule conjunct2)
qed

theorem png_resolution_witness:
  "find_png_for_name ''arm'' [(''left_arm_01'', ''left_arm_01'')]
     = map_option snd (find (loosely_matches ''arm'') [(''left_arm_01'', ''left_arm_01'')])
   \<and> find_png_for_name ''arm'' [(''left_arm_01'', ''left_arm_01'')] = Some ''left_arm_01''"
proof -
  have h: "map_of [(''left_arm_01'', ''left_arm_01'')] ''arm'' = None
      \<and> map_of [(''left_arm_01'', ''left_arm_01'')] (sanitize ''arm'') = None
      \<and> map_of [(''left_arm_01'', ''left_arm_01'')] (py_lower ''arm'') = None"
    by code_simp
  have v: "find_png_for_name ''arm'' [(''left_arm_01'', ''left_arm_01'')] = Some ''left_arm_01''"
    by code_simp
  note t = png_resolution [where idx = "[(''left_arm_01'', ''left_arm_01'')]" and name = "''arm''",
      THEN conjunct1, THEN mp, OF h, THEN conjunct1]
  from t v show ?thesis by (rule conjI)
qed

section \<open>Names of pieces\<close>


















section \<open>Draw order\<close>

lemma flat_names_Nil [simp]: "flat_names [] = []"
  by (simp add: flat_names_def)

lemma flat_names_append [simp]: "flat_names (xs @ ys) = flat_names xs @ flat_names ys"
  by (simp add: flat_names_def)


lemma sanitize_Nil_iff [simp]: "sanitize s = [] \<longleftrightarrow> s = []"
  by (simp add: sanitize_def)

lemma sanitize_idem [simp]: "sanitize (sanitize s) = sanitize s"
  by (simp add: sanitize_def)







lemma map_sanitize_flat_names [simp]: "map sanitize (flat_names out) = flat_names out"
proof (induction out)
  case Nil
  then show ?case by simp
next
  case (Cons i out)
  then show ?case by (cases "fst i") (simp_all add: flat_names_def)
qed


















end
